theory Spec2Isabelle
  imports Main "HOL-Library.AList"
begin

section \<open>Strings, paths and formatting\<close>

text \<open>
  Python strings and byte strings are modelled as \<open>char list\<close>; a character is one
  byte, so text outside ASCII is its UTF-8 encoding. The two glyphs the program prints
  are written as their UTF-8 bytes.
\<close>

type_synonym bytes = string

definition cross :: string where
  "cross = [CHR 0xE2, CHR 0x9C, CHR 0x97]"

definition tick :: string where
  "tick = [CHR 0xE2, CHR 0x9C, CHR 0x93]"

definition newline :: string where
  "newline = [CHR 0x0A]"

definition quote :: string where
  "quote = [CHR 0x27]"

definition digit_char :: "nat \<Rightarrow> char" where
  "digit_char d = ''0123456789'' ! (d mod 10)"

text \<open>\<open>str(n)\<close> of a non-negative integer: its decimal digits.\<close>

fun str_nat :: "nat \<Rightarrow> string" where
  "str_nat n = (if n < 10 then [digit_char n] else str_nat (n div 10) @ [digit_char n])"

declare str_nat.simps [simp del]

text \<open>\<open>str.lower()\<close>; on ASCII it maps \<open>A..Z\<close> to \<open>a..z\<close> and keeps every other byte.\<close>

definition lower_char :: "char \<Rightarrow> char" where
  "lower_char c =
     (case map_of (zip ''ABCDEFGHIJKLMNOPQRSTUVWXYZ'' ''abcdefghijklmnopqrstuvwxyz'') c of
        None \<Rightarrow> c
      | Some l \<Rightarrow> l)"

definition lower :: "string \<Rightarrow> string" where
  "lower s = map lower_char s"

text \<open>\<open>s.endswith(suf)\<close>, and \<open>s.endswith(tuple)\<close>: one of the suffixes fits.\<close>

definition endswith :: "string \<Rightarrow> string \<Rightarrow> bool" where
  "endswith s suf = (length suf \<le> length s \<and> drop (length s - length suf) s = suf)"

definition endswith_any :: "string \<Rightarrow> string list \<Rightarrow> bool" where
  "endswith_any s sufs = list_ex (endswith s) sufs"

text \<open>\<open>str.strip()\<close>: ASCII white space is removed at both ends.\<close>

definition is_space :: "char \<Rightarrow> bool" where
  "is_space c = (let n = (of_char c :: nat) in n = 32 \<or> (9 \<le> n \<and> n \<le> 13) \<or> (28 \<le> n \<and> n \<le> 31))"

definition strip :: "string \<Rightarrow> string" where
  "strip s = rev (dropWhile is_space (rev (dropWhile is_space s)))"

text \<open>\<open>os.path.basename(p)\<close> is \<open>p[p.rfind('/') + 1:]\<close>.\<close>

definition basename :: "string \<Rightarrow> string" where
  "basename p = rev (takeWhile (\<lambda>c. c \<noteq> CHR ''/'') (rev p))"

text \<open>\<open>os.path.join(a, b)\<close> (posixpath) for two components.\<close>

definition join :: "string \<Rightarrow> string \<Rightarrow> string" where
  "join a b =
     (if b \<noteq> [] \<and> hd b = CHR ''/'' then b
      else if a = [] \<or> last a = CHR ''/'' then a @ b
      else a @ ''/'' @ b)"

section \<open>Exceptions\<close>

text \<open>
  Every exception the code can meet is a value; the string is \<open>str(e)\<close>. The first four
  are the \<open>requests.exceptions\<close> classes the function names (\<open>RequestException\<close> stands for
  any other subclass of it), the others are built-in \<open>Exception\<close> subclasses.
  \<open>KeyboardInterrupt\<close>, an asynchronous signal, is outside the model.
\<close>

datatype exn =
    HTTPError string
  | ConnectionError string
  | Timeout string
  | RequestException string
  | PermissionError string
  | FileNotFoundError string
  | IsADirectoryError string
  | NotADirectoryError string
  | OSError string
  | EOFError string
  | UnboundLocalError string

fun str_exn :: "exn \<Rightarrow> string" where
  "str_exn (HTTPError m) = m"
| "str_exn (ConnectionError m) = m"
| "str_exn (Timeout m) = m"
| "str_exn (RequestException m) = m"
| "str_exn (PermissionError m) = m"
| "str_exn (FileNotFoundError m) = m"
| "str_exn (IsADirectoryError m) = m"
| "str_exn (NotADirectoryError m) = m"
| "str_exn (OSError m) = m"
| "str_exn (EOFError m) = m"
| "str_exn (UnboundLocalError v) =
     ''cannot access local variable '' @ quote @ v @ quote @
     '' where it is not associated with a value''"

section \<open>The platform: network, clock, hashing, URL parsing\<close>

text \<open>
  A \<open>requests.Response\<close>, as far as the program reads it. The header dictionary is
  case-insensitive: it is keyed by the lower-cased header name.
\<close>

record response =
  status_code :: nat
  reason :: string
  resp_url :: string
  headers :: "string \<rightharpoonup> string"
  content :: bytes

text \<open>\<open>Response.raise_for_status()\<close>: statuses 400 to 599 raise \<open>HTTPError\<close>.\<close>

definition raise_for_status :: "response \<Rightarrow> exn + unit" where
  "raise_for_status r =
     (if 400 \<le> status_code r \<and> status_code r < 500 then
        Inl (HTTPError (str_nat (status_code r) @ '' Client Error: '' @ reason r @
                        '' for url: '' @ resp_url r))
      else if 500 \<le> status_code r \<and> status_code r < 600 then
        Inl (HTTPError (str_nat (status_code r) @ '' Server Error: '' @ reason r @
                        '' for url: '' @ resp_url r))
      else Inr ())"

definition headers_get :: "(string \<rightharpoonup> string) \<Rightarrow> string \<Rightarrow> string \<Rightarrow> string" where
  "headers_get hs k d = (case hs (lower k) of None \<Rightarrow> d | Some v \<Rightarrow> v)"

text \<open>\<open>datetime.datetime.now()\<close> and \<open>strftime("%Y%m%d_%H%M%S")\<close>: zero-padded fields.\<close>

record datetime =
  year :: nat
  month :: nat
  day :: nat
  hour :: nat
  minute :: nat
  second :: nat

definition pad2 :: "nat \<Rightarrow> string" where
  "pad2 n = (if n < 10 then ''0'' @ str_nat n else str_nat n)"

definition pad4 :: "nat \<Rightarrow> string" where
  "pad4 n = replicate (4 - length (str_nat n)) CHR ''0'' @ str_nat n"

definition strftime :: "datetime \<Rightarrow> string" where
  "strftime t = pad4 (year t) @ pad2 (month t) @ pad2 (day t) @ ''_'' @
                pad2 (hour t) @ pad2 (minute t) @ pad2 (second t)"

text \<open>
  The library functions and the outside world the program calls but does not define are
  parameters: the SHA-256 hex digest of a byte string, the path component that
  \<open>urlparse\<close> finds in a URL, what \<open>requests.get\<close> answers for a URL, and the clock.
\<close>

record platform =
  sha256_hexdigest :: "bytes \<Rightarrow> string"
  urlparse_path :: "string \<Rightarrow> string"
  requests_get :: "string \<Rightarrow> exn + response"
  now :: datetime

section \<open>The target directory\<close>

text \<open>
  The file system is the target directory: whether it exists, whether it can be created,
  whether entries may be created, deleted and renamed in it (POSIX write permission on
  the directory), and its entries in the order \<open>os.listdir\<close> returns them. An entry is a
  regular file (readable and writable) with its content, or a subdirectory. A path handed
  to a primitive names the entry given by its last component. \<open>history\<close> records the
  mutations that took effect, in order.
\<close>

datatype node = File bytes | Dir

datatype fs_event =
    Made_dir string
  | Wrote string bytes
  | Removed string
  | Renamed string string

record filesystem =
  dir_present :: bool
  dir_creatable :: bool
  dir_writable :: bool
  entries :: "(string \<times> node) list"
  history :: "fs_event list"

definition lookup :: "filesystem \<Rightarrow> string \<Rightarrow> node option" where
  "lookup fs path = (if dir_present fs then map_of (entries fs) (basename path) else None)"

definition errno_msg :: "string \<Rightarrow> string \<Rightarrow> string" where
  "errno_msg what path = what @ '': '' @ quote @ path @ quote"

text \<open>\<open>os.makedirs(directory, exist_ok=True)\<close>.\<close>

definition os_makedirs :: "string \<Rightarrow> filesystem \<Rightarrow> exn + filesystem" where
  "os_makedirs directory fs =
     (if directory = [] then
        Inl (FileNotFoundError (errno_msg ''[Errno 2] No such file or directory'' directory))
      else if dir_present fs then Inr fs
      else if dir_creatable fs then
        Inr (fs\<lparr>dir_present := True, dir_writable := True, entries := [],
                 history := history fs @ [Made_dir directory]\<rparr>)
      else Inl (PermissionError (errno_msg ''[Errno 13] Permission denied'' directory)))"

text \<open>\<open>with open(path, "wb") as f: f.write(data)\<close>: create or truncate, then write.\<close>

definition open_wb_write :: "string \<Rightarrow> bytes \<Rightarrow> filesystem \<Rightarrow> exn + filesystem" where
  "open_wb_write path data fs =
     (if \<not> dir_present fs then
        Inl (FileNotFoundError (errno_msg ''[Errno 2] No such file or directory'' path))
      else case lookup fs path of
        Some Dir \<Rightarrow> Inl (IsADirectoryError (errno_msg ''[Errno 21] Is a directory'' path))
      | Some (File old) \<Rightarrow>
          Inr (fs\<lparr>entries := AList.update (basename path) (File data) (entries fs),
                   history := history fs @ [Wrote path data]\<rparr>)
      | None \<Rightarrow>
          if dir_writable fs then
            Inr (fs\<lparr>entries := AList.update (basename path) (File data) (entries fs),
                     history := history fs @ [Wrote path data]\<rparr>)
          else Inl (PermissionError (errno_msg ''[Errno 13] Permission denied'' path)))"

text \<open>\<open>open(path, "rb")\<close> followed by reading: the content, or the exception.\<close>

definition open_rb :: "filesystem \<Rightarrow> string \<Rightarrow> exn + bytes" where
  "open_rb fs path =
     (case lookup fs path of
        None \<Rightarrow> Inl (FileNotFoundError (errno_msg ''[Errno 2] No such file or directory'' path))
      | Some Dir \<Rightarrow> Inl (IsADirectoryError (errno_msg ''[Errno 21] Is a directory'' path))
      | Some (File data) \<Rightarrow> Inr data)"

definition os_listdir :: "string \<Rightarrow> filesystem \<Rightarrow> exn + string list" where
  "os_listdir directory fs =
     (if dir_present fs then Inr (map fst (entries fs))
      else Inl (FileNotFoundError (errno_msg ''[Errno 2] No such file or directory'' directory)))"

definition os_path_exists :: "filesystem \<Rightarrow> string \<Rightarrow> bool" where
  "os_path_exists fs path = (lookup fs path \<noteq> None)"

text \<open>\<open>os.remove(path)\<close>.\<close>

definition os_remove :: "string \<Rightarrow> filesystem \<Rightarrow> exn + filesystem" where
  "os_remove path fs =
     (case lookup fs path of
        None \<Rightarrow> Inl (FileNotFoundError (errno_msg ''[Errno 2] No such file or directory'' path))
      | Some nd \<Rightarrow>
          if \<not> dir_writable fs then
            Inl (PermissionError (errno_msg ''[Errno 13] Permission denied'' path))
          else (case nd of
            Dir \<Rightarrow> Inl (IsADirectoryError (errno_msg ''[Errno 21] Is a directory'' path))
          | File data \<Rightarrow>
              Inr (fs\<lparr>entries := AList.delete (basename path) (entries fs),
                       history := history fs @ [Removed path]\<rparr>)))"

text \<open>
  \<open>os.rename(src, dst)\<close>: the entry moves to its new name and replaces a regular file
  already there. The program only ever renames the regular file it has just written;
  renaming a subdirectory onto an existing entry is answered with an error.
\<close>

definition os_rename :: "string \<Rightarrow> string \<Rightarrow> filesystem \<Rightarrow> exn + filesystem" where
  "os_rename src dst fs =
     (case lookup fs src of
        None \<Rightarrow> Inl (FileNotFoundError (errno_msg ''[Errno 2] No such file or directory'' src))
      | Some nd \<Rightarrow>
          if \<not> dir_writable fs then
            Inl (PermissionError (errno_msg ''[Errno 13] Permission denied'' src))
          else (case (nd, lookup fs dst) of
            (File data, Some Dir) \<Rightarrow>
              Inl (IsADirectoryError (errno_msg ''[Errno 21] Is a directory'' dst))
          | (Dir, Some (File old)) \<Rightarrow>
              Inl (NotADirectoryError (errno_msg ''[Errno 20] Not a directory'' dst))
          | (Dir, Some Dir) \<Rightarrow>
              Inl (OSError (errno_msg ''[Errno 39] Directory not empty'' dst))
          | _ \<Rightarrow>
              Inr (fs\<lparr>entries := AList.update (basename dst) nd
                                    (AList.delete (basename src) (entries fs)),
                       history := history fs @ [Renamed src dst]\<rparr>)))"

section \<open>The program\<close>

subsection \<open>\<open>get_file_hash\<close>\<close>

text \<open>
  The hash object accumulates the bytes given to \<open>update\<close>; \<open>hexdigest\<close> is the
  platform's digest of what was accumulated. The file is read in chunks of 4096 bytes
  until \<open>f.read\<close> returns the empty byte string.
\<close>

function file_chunks :: "bytes \<Rightarrow> bytes list" where
  "file_chunks bs = (if bs = [] then [] else take 4096 bs # file_chunks (drop 4096 bs))"
  by pat_completeness auto
termination
  by (relation "measure length") auto

declare file_chunks.simps [simp del]

definition get_file_hash :: "platform \<Rightarrow> filesystem \<Rightarrow> string \<Rightarrow> exn + string option" where
  "get_file_hash P fs filepath =
     (case open_rb fs filepath of
        Inl (FileNotFoundError m) \<Rightarrow> Inr None
      | Inl e \<Rightarrow> Inl e
      | Inr data \<Rightarrow> Inr (Some (sha256_hexdigest P (foldl (@) [] (file_chunks data)))))"

subsection \<open>\<open>is_valid_image\<close>\<close>

definition valid_types :: "string list" where
  "valid_types = [''image/jpeg'', ''image/png'', ''image/gif'', ''image/bmp'']"

definition is_valid_image :: "string \<Rightarrow> bool" where
  "is_valid_image content_type = (content_type \<in> set valid_types)"

subsection \<open>\<open>fetch_and_save_image\<close>\<close>

text \<open>The mutable world of a call: the target directory and the console.\<close>

record state =
  disk :: filesystem
  console :: "string list"

definition print :: "string \<Rightarrow> state \<Rightarrow> state" where
  "print line s = s\<lparr>console := console s @ [line]\<rparr>"

text \<open>
  The two local variables that the \<open>except\<close> and \<open>finally\<close> clauses read; \<open>None\<close> is a
  name that has not been assigned yet.
\<close>

record frame =
  file_path :: "string option"
  temp_path :: "string option"

definition unbound :: frame where
  "unbound = \<lparr>file_path = None, temp_path = None\<rparr>"

text \<open>Lines 50 to 55: the file name from the URL path, or one made from the clock.\<close>

definition image_suffixes :: "string list" where
  "image_suffixes = [''.jpg'', ''.jpeg'', ''.png'', ''.gif'', ''.bmp'']"

definition derive_filename :: "string \<Rightarrow> datetime \<Rightarrow> string" where
  "derive_filename url_path t =
     (let filename = basename url_path in
      if filename = [] \<or> \<not> endswith_any (lower filename) image_suffixes
      then ''image_'' @ strftime t @ ''.jpg''
      else filename)"

text \<open>
  Lines 70 to 75, the loop over \<open>os.listdir(directory)\<close>: the first entry other than the
  temporary file whose hash equals \<open>new_hash\<close>, \<open>None\<close> when the loop runs to its end,
  or the exception that hashing an entry raised.
\<close>

fun scan_existing ::
  "platform \<Rightarrow> filesystem \<Rightarrow> string \<Rightarrow> string \<Rightarrow> string option \<Rightarrow> string list
     \<Rightarrow> exn + string option" where
  "scan_existing P fs directory temp new_hash [] = Inr None"
| "scan_existing P fs directory temp new_hash (existing_file # rest) =
     (let existing_path = join directory existing_file in
      if existing_path \<noteq> temp then
        (case get_file_hash P fs existing_path of
           Inl e \<Rightarrow> Inl e
         | Inr h \<Rightarrow>
             if h = new_hash then Inr (Some existing_file)
             else scan_existing P fs directory temp new_hash rest)
      else scan_existing P fs directory temp new_hash rest)"

text \<open>
  Lines 66 to 82, once the temporary file is written: hash it, scan the directory, then
  drop the temporary file (duplicate) or rename it to the final path.
\<close>

definition dedup_and_store ::
  "platform \<Rightarrow> string \<Rightarrow> string \<Rightarrow> string \<Rightarrow> string \<Rightarrow> string \<Rightarrow> state
     \<Rightarrow> (exn + bool) \<times> state" where
  "dedup_and_store P url directory filename fpath temp s =
     (case get_file_hash P (disk s) temp of
        Inl e \<Rightarrow> (Inl e, s)
      | Inr new_hash \<Rightarrow>
     (case os_listdir directory (disk s) of
        Inl e \<Rightarrow> (Inl e, s)
      | Inr names \<Rightarrow>
     (case scan_existing P (disk s) directory temp new_hash names of
        Inl e \<Rightarrow> (Inl e, s)
      | Inr (Some existing_file) \<Rightarrow>
          (let s1 = print (cross @ '' Skipped '' @ url @ '': Duplicate image found as '' @
                           existing_file @ ''.'') s in
           case os_remove temp (disk s1) of
             Inl e \<Rightarrow> (Inl e, s1)
           | Inr fs' \<Rightarrow> (Inr False, s1\<lparr>disk := fs'\<rparr>))
      | Inr None \<Rightarrow>
          (case os_rename temp fpath (disk s) of
             Inl e \<Rightarrow> (Inl e, s)
           | Inr fs' \<Rightarrow>
               (Inr True,
                print (tick @ '' Image saved to '' @ fpath)
                  (print (tick @ '' Successfully fetched: '' @ filename)
                     (s\<lparr>disk := fs'\<rparr>)))))))"

text \<open>
  Lines 36 to 82, the body of the \<open>try\<close>: the value returned or the exception raised, the
  local variables as they stand when the body is left, and the state.
\<close>

definition try_body ::
  "platform \<Rightarrow> string \<Rightarrow> string \<Rightarrow> state \<Rightarrow> (exn + bool) \<times> frame \<times> state" where
  "try_body P url directory s =
     (case requests_get P url of
        Inl e \<Rightarrow> (Inl e, unbound, s)
      | Inr resp \<Rightarrow>
     (case raise_for_status resp of
        Inl e \<Rightarrow> (Inl e, unbound, s)
      | Inr u \<Rightarrow>
     (let content_type = headers_get (headers resp) ''Content-Type'' [] in
      if \<not> is_valid_image content_type then
        (Inr False, unbound,
         print (cross @ '' Error for '' @ url @ '': Invalid content type ('' @ content_type @
                ''). Expected an image.'') s)
      else
     (let filename = derive_filename (urlparse_path P url) (now P) in
      case os_makedirs directory (disk s) of
        Inl e \<Rightarrow> (Inl e, unbound, s)
      | Inr fs1 \<Rightarrow>
     (let fpath = join directory filename;
          temp = fpath @ ''.tmp'';
          locals = \<lparr>file_path = Some fpath, temp_path = Some temp\<rparr> in
      case open_wb_write temp (content resp) fs1 of
        Inl e \<Rightarrow> (Inl e, locals, s\<lparr>disk := fs1\<rparr>)
      | Inr fs2 \<Rightarrow>
          (case dedup_and_store P url directory filename fpath temp (s\<lparr>disk := fs2\<rparr>) of
             (r, s') \<Rightarrow> (r, locals, s')))))))"

text \<open>
  Lines 84 to 101, the \<open>except\<close> clauses in their order. The \<open>PermissionError\<close> clause
  reads \<open>file_path\<close>; where that name is unbound the clause itself raises.
\<close>

fun except_clauses :: "string \<Rightarrow> frame \<Rightarrow> exn \<Rightarrow> state \<Rightarrow> (exn + bool) \<times> state" where
  "except_clauses url fr (HTTPError m) s =
     (Inr False, print (cross @ '' Error for '' @ url @ '': HTTP error - '' @ m) s)"
| "except_clauses url fr (ConnectionError m) s =
     (Inr False, print (cross @ '' Error for '' @ url @ '': Failed to connect to the server.'') s)"
| "except_clauses url fr (Timeout m) s =
     (Inr False, print (cross @ '' Error for '' @ url @ '': Request timed out.'') s)"
| "except_clauses url fr (RequestException m) s =
     (Inr False, print (cross @ '' Error for '' @ url @ '': Request error - '' @ m) s)"
| "except_clauses url fr (PermissionError m) s =
     (case file_path fr of
        None \<Rightarrow> (Inl (UnboundLocalError ''file_path''), s)
      | Some fpath \<Rightarrow>
          (Inr False, print (cross @ '' Error for '' @ url @
                             '': Permission denied when saving to '' @ quote @ fpath @ quote @
                             ''.'') s))"
| "except_clauses url fr e s =
     (Inr False, print (cross @ '' Error for '' @ url @
                        '': An unexpected error occurred - '' @ str_exn e) s)"

text \<open>
  Lines 102 to 108, the \<open>finally\<close> clause. It reads \<open>temp_path\<close>: where that name is
  unbound the clause raises, and its exception replaces the pending return value or
  exception. A failure of \<open>os.remove\<close> is swallowed.
\<close>

definition finally_clause :: "frame \<Rightarrow> (exn + bool) \<times> state \<Rightarrow> (exn + bool) \<times> state" where
  "finally_clause fr pending =
     (case pending of (r, s) \<Rightarrow>
      (case temp_path fr of
         None \<Rightarrow> (Inl (UnboundLocalError ''temp_path''), s)
       | Some temp \<Rightarrow>
           if os_path_exists (disk s) temp then
             (case os_remove temp (disk s) of
                Inl e \<Rightarrow> (r, s)
              | Inr fs' \<Rightarrow> (r, s\<lparr>disk := fs'\<rparr>))
           else (r, s)))"

definition fetch_and_save_image ::
  "platform \<Rightarrow> string \<Rightarrow> string \<Rightarrow> state \<Rightarrow> (exn + bool) \<times> state" where
  "fetch_and_save_image P url directory s =
     (case try_body P url directory s of
        (Inr b, fr, s1) \<Rightarrow> finally_clause fr (Inr b, s1)
      | (Inl e, fr, s1) \<Rightarrow> finally_clause fr (except_clauses url fr e s1))"

subsection \<open>\<open>main\<close>\<close>

text \<open>
  Lines 117 to 122: \<open>input()\<close> takes the next line of standard input and raises
  \<open>EOFError\<close> when there is none.
\<close>

fun read_urls :: "string list \<Rightarrow> string list \<Rightarrow> exn + string list" where
  "read_urls [] urls = Inl (EOFError ''EOF when reading a line'')"
| "read_urls (line # rest) urls =
     (let url = strip line in
      if url = [] then Inr urls else read_urls rest (urls @ [url]))"

text \<open>
  \<open>executor.map(fetch_and_save_image, urls)\<close> under the schedule in which the pool runs
  the calls one after the other, each with the default directory. A result is the value
  a call returned or the exception it raised, in the order of the URLs.
\<close>

definition default_directory :: string where
  "default_directory = ''Fetched_Images''"

fun executor_map :: "platform \<Rightarrow> string list \<Rightarrow> state \<Rightarrow> (exn + bool) list \<times> state" where
  "executor_map P [] s = ([], s)"
| "executor_map P (url # urls) s =
     (case fetch_and_save_image P url default_directory s of
        (r, s1) \<Rightarrow> (case executor_map P urls s1 of (rs, s2) \<Rightarrow> (r # rs, s2)))"

text \<open>
  Line 133, \<open>sum(1 for result in results if result)\<close>: iterating the results re-raises
  the exception of the first call that raised.
\<close>

fun count_successes :: "(exn + bool) list \<Rightarrow> exn + nat" where
  "count_successes [] = Inr 0"
| "count_successes (Inl e # rs) = Inl e"
| "count_successes (Inr b # rs) =
     (case count_successes rs of
        Inl e \<Rightarrow> Inl e
      | Inr n \<Rightarrow> Inr (if b then Suc n else n))"

definition success_line :: "nat \<Rightarrow> nat \<Rightarrow> string" where
  "success_line successes count =
     newline @ ''Connection strengthened. Community enriched. ('' @ str_nat successes @ ''/'' @
     str_nat count @ '' images fetched successfully)''"

definition failure_line :: string where
  "failure_line = newline @ ''Connection attempt failed. Please try again.''"

definition unexpected_line :: "exn \<Rightarrow> string" where
  "unexpected_line e = cross @ '' An unexpected error occurred: '' @ str_exn e"

text \<open>Lines 132 to 137 under the handler of line 141: the summary of the results.\<close>

definition summarize :: "string list \<Rightarrow> (exn + bool) list \<Rightarrow> state \<Rightarrow> state" where
  "summarize urls results s =
     (case count_successes results of
        Inl e \<Rightarrow> print (unexpected_line e) s
      | Inr successes \<Rightarrow>
          if successes > 0 then print (success_line successes (length urls)) s
          else print failure_line s)"

definition main :: "platform \<Rightarrow> string list \<Rightarrow> state \<Rightarrow> state" where
  "main P stdin s =
     (let s1 = print ''Welcome to the Ubuntu Image Fetcher'' s;
          s2 = print (''A tool for mindfully collecting images from the web'' @ newline) s1;
          s3 = print ''Enter image URLs (one per line, press Enter twice to finish):'' s2 in
      case read_urls stdin [] of
        Inl e \<Rightarrow> print (unexpected_line e) s3
      | Inr urls \<Rightarrow>
          if urls = [] then print (cross @ '' Error: No URLs provided.'') s3
          else (case executor_map P urls s3 of
                  (results, s4) \<Rightarrow> summarize urls results s4))"

section \<open>Notions used in the statements\<close>

text \<open>
  The file name, the final path and the temporary path that a call computes at lines 51
  to 62 from the URL, the clock and the directory.
\<close>

definition filename_of :: "platform \<Rightarrow> string \<Rightarrow> string" where
  "filename_of P url = derive_filename (urlparse_path P url) (now P)"

definition final_path_of :: "platform \<Rightarrow> string \<Rightarrow> string \<Rightarrow> string" where
  "final_path_of P url directory = join directory (filename_of P url)"

definition temp_path_of :: "platform \<Rightarrow> string \<Rightarrow> string \<Rightarrow> string" where
  "temp_path_of P url directory = final_path_of P url directory @ ''.tmp''"

text \<open>The name of the temporary file inside the directory.\<close>

definition temp_name_of :: "platform \<Rightarrow> string \<Rightarrow> string" where
  "temp_name_of P url = filename_of P url @ ''.tmp''"

text \<open>
  A directory is well formed when no name occurs twice in its listing, no name contains a
  slash, and a directory that does not exist has no entries, as on every real file system.
\<close>

definition wf_fs :: "filesystem \<Rightarrow> bool" where
  "wf_fs fs = (distinct (map fst (entries fs)) \<and>
               (\<forall>n \<in> set (map fst (entries fs)). CHR ''/'' \<notin> set n) \<and>
               (\<not> dir_present fs \<longrightarrow> entries fs = []))"

text \<open>
  The request for a URL passes the fetcher: \<open>requests.get\<close> answers, the status is no
  error, and the declared content type is on the allow-list (lines 41 to 48).
\<close>

definition passes_fetcher :: "platform \<Rightarrow> string \<Rightarrow> response \<Rightarrow> bool" where
  "passes_fetcher P url resp =
     (requests_get P url = Inr resp \<and> raise_for_status resp = Inr () \<and>
      is_valid_image (headers_get (headers resp) ''Content-Type'' []))"

text \<open>The content hashes of the regular files of a listing, in its order.\<close>

fun file_hashes :: "platform \<Rightarrow> (string \<times> node) list \<Rightarrow> string list" where
  "file_hashes P [] = []"
| "file_hashes P ((n, File data) # es) = sha256_hexdigest P data # file_hashes P es"
| "file_hashes P ((n, Dir) # es) = file_hashes P es"

text \<open>No two files of the directory have equal content hashes.\<close>

definition hash_unique :: "platform \<Rightarrow> filesystem \<Rightarrow> bool" where
  "hash_unique P fs = distinct (file_hashes P (entries fs))"

text \<open>The names of the regular files of a listing whose content hash is \<open>h\<close>.\<close>

fun files_with_hash :: "platform \<Rightarrow> string \<Rightarrow> (string \<times> node) list \<Rightarrow> string list" where
  "files_with_hash P h [] = []"
| "files_with_hash P h ((n, File data) # es) =
     (if sha256_hexdigest P data = h then n # files_with_hash P h es
      else files_with_hash P h es)"
| "files_with_hash P h ((n, Dir) # es) = files_with_hash P h es"

definition is_file :: "node option \<Rightarrow> bool" where
  "is_file x = (case x of Some (File data) \<Rightarrow> True | _ \<Rightarrow> False)"

text \<open>The events a call added to the history of the directory.\<close>

definition new_events :: "state \<Rightarrow> state \<Rightarrow> fs_event list" where
  "new_events s s' = drop (length (history (disk s))) (history (disk s'))"


text \<open>
  The shape \<open>YYYYMMDD_HHMMSS\<close> of a time stamp, the shape \<open>image_YYYYMMDD_HHMMSS.jpg\<close>
  of a synthesized file name, and the values a \<open>datetime\<close> can take.
\<close>

definition is_digit :: "char \<Rightarrow> bool" where
  "is_digit c = (c \<in> set ''0123456789'')"








text \<open>The response that \<open>requests.get\<close> gives for a URL, where it gives one.\<close>

definition the_response :: "platform \<Rightarrow> string \<Rightarrow> response" where
  "the_response P url =
     (case requests_get P url of
        Inr resp \<Rightarrow> resp
      | Inl e \<Rightarrow> \<lparr>status_code = 0, reason = [], resp_url = [], headers = Map.empty, content = []\<rparr>)"


section \<open>Concrete inputs\<close>

text \<open>
  A platform that answers every request in the same way, with a stand-in for the digest
  (equal contents have equal digests under any digest), and a directory that exists.
\<close>

definition ex_digest :: "bytes \<Rightarrow> string" where
  "ex_digest data = data"

definition ex_now :: datetime where
  "ex_now = \<lparr>year = 2024, month = 5, day = 7, hour = 9, minute = 3, second = 1\<rparr>"

definition ex_later :: datetime where
  "ex_later = \<lparr>year = 2024, month = 5, day = 7, hour = 9, minute = 3, second = 2\<rparr>"

definition ex_response :: "string \<Rightarrow> bytes \<Rightarrow> response" where
  "ex_response ct data =
     \<lparr>status_code = 200, reason = ''OK'', resp_url = ''https://site/a.png'',
      headers = [''content-type'' \<mapsto> ct], content = data\<rparr>"

definition ex_platform :: "(exn + response) \<Rightarrow> string \<Rightarrow> datetime \<Rightarrow> platform" where
  "ex_platform answer path t =
     \<lparr>sha256_hexdigest = ex_digest, urlparse_path = (\<lambda>u. path),
      requests_get = (\<lambda>u. answer), now = t\<rparr>"

definition ex_dir :: "bool \<Rightarrow> (string \<times> node) list \<Rightarrow> filesystem" where
  "ex_dir w es =
     \<lparr>dir_present = True, dir_creatable = True, dir_writable = w, entries = es, history = []\<rparr>"

definition ex_state :: "bool \<Rightarrow> (string \<times> node) list \<Rightarrow> state" where
  "ex_state w es = \<lparr>disk = ex_dir w es, console = []\<rparr>"

section \<open>Paths, names and hashing\<close>

lemma concat_file_chunks: "foldl (@) acc (file_chunks bs) = acc @ bs"
proof (induction bs arbitrary: acc rule: file_chunks.induct)
  case (1 bs)
  show ?case
  proof (cases "bs = []")
    case True
    then show ?thesis by (simp add: file_chunks.simps)
  next
    case False
    then have "foldl (@) acc (file_chunks bs) = foldl (@) (acc @ take 4096 bs) (file_chunks (drop 4096 bs))"
      by (subst file_chunks.simps) simp
    also have "\<dots> = (acc @ take 4096 bs) @ drop 4096 bs"
      using "1.IH" [OF False] by simp
    finally show ?thesis by simp
  qed
qed

lemma get_file_hash_lookup:
  "get_file_hash P fs p =
     (case lookup fs p of
        None \<Rightarrow> Inr None
      | Some Dir \<Rightarrow> Inl (IsADirectoryError (errno_msg ''[Errno 21] Is a directory'' p))
      | Some (File data) \<Rightarrow> Inr (Some (sha256_hexdigest P data)))"
  by (simp add: get_file_hash_def open_rb_def concat_file_chunks split: option.splits node.splits)

lemma basename_no_slash: "CHR ''/'' \<notin> set (basename p)"
  unfolding basename_def using set_takeWhileD by fastforce

lemma basename_append_slash_free:
  "CHR ''/'' \<notin> set n \<Longrightarrow> a = [] \<or> last a = CHR ''/'' \<Longrightarrow> basename (a @ n) = n"
proof -
  assume n: "CHR ''/'' \<notin> set n" and a: "a = [] \<or> last a = CHR ''/''"
  have "takeWhile (\<lambda>c. c \<noteq> CHR ''/'') (rev a) = []"
    using a by (cases a rule: rev_cases) auto
  moreover have "\<forall>c\<in>set (rev n). c \<noteq> CHR ''/''" using n by auto
  ultimately have "takeWhile (\<lambda>c. c \<noteq> CHR ''/'') (rev n @ rev a) = rev n"
    by (subst takeWhile_append2) auto
  then show ?thesis by (simp add: basename_def)
qed

lemma basename_join: "CHR ''/'' \<notin> set n \<Longrightarrow> basename (join d n) = n"
proof -
  assume n: "CHR ''/'' \<notin> set n"
  then have hd: "n = [] \<or> hd n \<noteq> CHR ''/''" by (cases n) auto
  show ?thesis
  proof (cases "d = [] \<or> last d = CHR ''/''")
    case True
    then have "join d n = d @ n" using hd by (auto simp: join_def)
    then show ?thesis using basename_append_slash_free [OF n True] by simp
  next
    case False
    then have "join d n = (d @ ''/'') @ n" using hd by (auto simp: join_def)
    then show ?thesis using basename_append_slash_free [OF n, of "d @ ''/''"] by simp
  qed
qed

lemma join_append: "CHR ''/'' \<notin> set n \<Longrightarrow> n \<noteq> [] \<Longrightarrow> join d n @ s = join d (n @ s)"
  by (cases n) (auto simp: join_def)

lemma join_inject: "CHR ''/'' \<notin> set n \<Longrightarrow> CHR ''/'' \<notin> set m \<Longrightarrow> join d n = join d m \<longleftrightarrow> n = m"
  by (metis basename_join)

lemma digit_char_in: "digit_char d \<in> set ''0123456789''"
proof -
  have "length ''0123456789'' = 10" by simp
  then have "d mod 10 < length ''0123456789''" by (metis mod_less_divisor zero_less_numeral)
  then show ?thesis unfolding digit_char_def by (rule nth_mem)
qed

lemma str_nat_digits: "set (str_nat n) \<subseteq> set ''0123456789''"
proof (induction n rule: str_nat.induct)
  case (1 n)
  show ?case
  proof (cases "n < 10")
    case True
    then show ?thesis using digit_char_in [of n] by (subst str_nat.simps) simp
  next
    case False
    then show ?thesis using "1.IH" digit_char_in [of n] by (subst str_nat.simps) simp
  qed
qed

lemma pad2_digits: "set (pad2 n) \<subseteq> set ''0123456789''"
  using str_nat_digits [of n] by (simp add: pad2_def)

lemma pad4_digits: "set (pad4 n) \<subseteq> set ''0123456789''"
  using str_nat_digits [of n] by (auto simp: pad4_def)

lemma strftime_no_slash: "CHR ''/'' \<notin> set (strftime t)"
proof -
  have "CHR ''/'' \<notin> set ''0123456789''" by simp
  then have "CHR ''/'' \<notin> set (pad2 n)" "CHR ''/'' \<notin> set (pad4 n)" for n
    using pad2_digits [of n] pad4_digits [of n] by blast+
  then show ?thesis by (simp add: strftime_def)
qed

lemma derive_filename_no_slash: "CHR ''/'' \<notin> set (derive_filename p t)"
  using strftime_no_slash [of t] basename_no_slash [of p]
  by (simp add: derive_filename_def Let_def)

lemma derive_filename_nonempty: "derive_filename p t \<noteq> []"
  by (simp add: derive_filename_def Let_def)

section \<open>The clauses of \<open>fetch_and_save_image\<close>\<close>

lemma except_clauses_disk: "disk (snd (except_clauses url fr e s)) = disk s"
  by (cases e) (simp_all add: print_def split: option.splits)

lemma except_clauses_bound:
  "file_path fr = Some p \<Longrightarrow> fst (except_clauses url fr e s) = Inr False"
  by (cases e) simp_all

lemma except_clauses_not_True: "fst (except_clauses url fr e s) \<noteq> Inr True"
  by (cases e) (simp_all split: option.splits)

lemma finally_clause_unbound:
  "temp_path fr = None \<Longrightarrow> finally_clause fr (r, s) = (Inl (UnboundLocalError ''temp_path''), s)"
  by (simp add: finally_clause_def)

lemma finally_clause_bound:
  "temp_path fr = Some temp \<Longrightarrow>
   finally_clause fr (r, s) =
     (r, s\<lparr>disk := (case os_remove temp (disk s) of Inl e \<Rightarrow> disk s | Inr fs' \<Rightarrow> fs')\<rparr>)"
  by (auto simp: finally_clause_def os_path_exists_def os_remove_def split: sum.splits option.splits)

lemma dedup_and_store_cases:
  assumes "dedup_and_store P url d fn fpath temp s = (r, s')"
  shows "(disk s' = disk s \<and> (\<exists>e. r = Inl e))
       \<or> (r = Inr False \<and> os_remove temp (disk s) = Inr (disk s') \<and>
          (\<exists>h m. get_file_hash P (disk s) temp = Inr h \<and>
             scan_existing P (disk s) d temp h (map fst (entries (disk s))) = Inr (Some m)))
       \<or> (r = Inr True \<and> os_rename temp fpath (disk s) = Inr (disk s') \<and>
          (\<exists>h. get_file_hash P (disk s) temp = Inr h \<and>
             scan_existing P (disk s) d temp h (map fst (entries (disk s))) = Inr None))"
  using assms
  by (auto simp: dedup_and_store_def os_listdir_def print_def Let_def
           split: sum.splits option.splits if_splits)

lemma try_body_cases:
  assumes "try_body P url d s = (r0, fr, s0)"
  shows "(fr = unbound \<and> disk s0 = disk s \<and> (\<forall>resp. passes_fetcher P url resp \<longrightarrow> (\<exists>e. os_makedirs d (disk s) = Inl e)))
       \<or> (fr = \<lparr>file_path = Some (final_path_of P url d), temp_path = Some (temp_path_of P url d)\<rparr> \<and>
          (\<exists>resp fs1. passes_fetcher P url resp \<and> os_makedirs d (disk s) = Inr fs1 \<and>
             ((\<exists>e. open_wb_write (temp_path_of P url d) (content resp) fs1 = Inl e \<and>
                   r0 = Inl e \<and> disk s0 = fs1)
            \<or> (\<exists>fs2. open_wb_write (temp_path_of P url d) (content resp) fs1 = Inr fs2 \<and>
                   dedup_and_store P url d (filename_of P url) (final_path_of P url d)
                     (temp_path_of P url d) (s\<lparr>disk := fs2\<rparr>) = (r0, s0)))))"
  using assms
  by (auto simp: try_body_def passes_fetcher_def Let_def print_def
                 filename_of_def final_path_of_def temp_path_of_def
           split: sum.splits if_splits prod.splits)

lemma fetch_via_try_body:
  assumes "try_body P url d s = (r0, fr, s0)"
  shows "fetch_and_save_image P url d s =
           finally_clause fr (case r0 of Inr b \<Rightarrow> (Inr b, s0) | Inl e \<Rightarrow> except_clauses url fr e s0)"
  using assms by (simp add: fetch_and_save_image_def split: sum.splits)

lemma finally_clause_pair_bound:
  "temp_path fr = Some temp \<Longrightarrow>
   finally_clause fr x =
     (fst x, (snd x)\<lparr>disk := (case os_remove temp (disk (snd x)) of
                                  Inl e \<Rightarrow> disk (snd x) | Inr fs' \<Rightarrow> fs')\<rparr>)"
  using finally_clause_bound [of fr temp "fst x" "snd x"] by simp

lemma finally_clause_pair_unbound:
  "temp_path fr = None \<Longrightarrow>
   finally_clause fr x = (Inl (UnboundLocalError ''temp_path''), snd x)"
  using finally_clause_unbound [of fr "fst x" "snd x"] by simp

lemma fetch_raises:
  assumes "fetch_and_save_image P url d s = (Inl e, s')"
  shows "e = UnboundLocalError ''temp_path'' \<and> disk s' = disk s \<and>
         (\<forall>resp. passes_fetcher P url resp \<longrightarrow> (\<exists>e'. os_makedirs d (disk s) = Inl e'))"
proof -
  obtain r0 fr s0 where tb: "try_body P url d s = (r0, fr, s0)"
    by (cases "try_body P url d s") auto
  note f = fetch_via_try_body [OF tb]
  have "fr = unbound \<or> fr = \<lparr>file_path = Some (final_path_of P url d), temp_path = Some (temp_path_of P url d)\<rparr>"
    using try_body_cases [OF tb] by blast
  then show ?thesis
  proof
    assume fr: "fr = unbound"
    then have d: "disk s0 = disk s"
      and m: "\<forall>resp. passes_fetcher P url resp \<longrightarrow> (\<exists>e. os_makedirs d (disk s) = Inl e)"
      using try_body_cases [OF tb] by (auto simp: unbound_def)
    have "temp_path fr = None" using fr by (simp add: unbound_def)
    from finally_clause_pair_unbound [OF this] f assms d m show ?thesis
      by (cases r0) (auto simp: except_clauses_disk)
  next
    assume fr: "fr = \<lparr>file_path = Some (final_path_of P url d), temp_path = Some (temp_path_of P url d)\<rparr>"
    then have t: "temp_path fr = Some (temp_path_of P url d)" and p: "file_path fr = Some (final_path_of P url d)"
      by simp_all
    have "fst (fetch_and_save_image P url d s) \<noteq> Inl e"
      using f finally_clause_pair_bound [OF t] except_clauses_bound [OF p]
      by (cases r0) auto
    with assms show ?thesis by simp
  qed
qed

lemma fetch_returns:
  assumes "fetch_and_save_image P url d s = (Inr b, s')"
  shows "\<exists>resp fs1 fsT. passes_fetcher P url resp \<and> os_makedirs d (disk s) = Inr fs1 \<and>
           disk s' = (case os_remove (temp_path_of P url d) fsT of Inl e \<Rightarrow> fsT | Inr fs' \<Rightarrow> fs') \<and>
           ((\<not> b \<and> fsT = fs1 \<and> (\<exists>e. open_wb_write (temp_path_of P url d) (content resp) fs1 = Inl e))
          \<or> (\<exists>fs2. open_wb_write (temp_path_of P url d) (content resp) fs1 = Inr fs2 \<and>
               ((\<not> b \<and> fsT = fs2)
              \<or> (\<not> b \<and> os_remove (temp_path_of P url d) fs2 = Inr fsT \<and>
                   (\<exists>h m. get_file_hash P fs2 (temp_path_of P url d) = Inr h \<and>
                      scan_existing P fs2 d (temp_path_of P url d) h (map fst (entries fs2)) = Inr (Some m)))
              \<or> (b \<and> os_rename (temp_path_of P url d) (final_path_of P url d) fs2 = Inr fsT \<and>
                   (\<exists>h. get_file_hash P fs2 (temp_path_of P url d) = Inr h \<and>
                      scan_existing P fs2 d (temp_path_of P url d) h (map fst (entries fs2)) = Inr None)))))"
proof -
  obtain r0 fr s0 where tb: "try_body P url d s = (r0, fr, s0)"
    by (cases "try_body P url d s") auto
  note f = fetch_via_try_body [OF tb]
  from try_body_cases [OF tb] show ?thesis
  proof (elim disjE conjE exE)
    assume fr: "fr = unbound"
    have "temp_path fr = None" using fr by (simp add: unbound_def)
    from finally_clause_pair_unbound [OF this] f assms show ?thesis by simp
  next
    fix resp fs1 e
    assume fr: "fr = \<lparr>file_path = Some (final_path_of P url d), temp_path = Some (temp_path_of P url d)\<rparr>"
      and pf: "passes_fetcher P url resp" and mk: "os_makedirs d (disk s) = Inr fs1"
      and op: "open_wb_write (temp_path_of P url d) (content resp) fs1 = Inl e"
      and r0: "r0 = Inl e" and d0: "disk s0 = fs1"
    from fr have t: "temp_path fr = Some (temp_path_of P url d)" and p: "file_path fr = Some (final_path_of P url d)"
      by simp_all
    have "b = False \<and> disk s' = (case os_remove (temp_path_of P url d) fs1 of Inl e \<Rightarrow> fs1 | Inr fs' \<Rightarrow> fs')"
      using f finally_clause_pair_bound [OF t] except_clauses_bound [OF p, of url e s0]
            except_clauses_disk [of url fr e s0] assms r0 d0
      by auto
    with pf mk op show ?thesis by blast
  next
    fix resp fs1 fs2
    assume fr: "fr = \<lparr>file_path = Some (final_path_of P url d), temp_path = Some (temp_path_of P url d)\<rparr>"
      and pf: "passes_fetcher P url resp" and mk: "os_makedirs d (disk s) = Inr fs1"
      and op: "open_wb_write (temp_path_of P url d) (content resp) fs1 = Inr fs2"
      and ds: "dedup_and_store P url d (filename_of P url) (final_path_of P url d)
                     (temp_path_of P url d) (s\<lparr>disk := fs2\<rparr>) = (r0, s0)"
    from fr have t: "temp_path fr = Some (temp_path_of P url d)" and p: "file_path fr = Some (final_path_of P url d)"
      by simp_all
    let ?T = "temp_path_of P url d"
    have fin: "disk s' = (case os_remove ?T (disk (snd (case r0 of Inr b \<Rightarrow> (Inr b, s0) | Inl e \<Rightarrow> except_clauses url fr e s0))) of
                  Inl e \<Rightarrow> disk (snd (case r0 of Inr b \<Rightarrow> (Inr b, s0) | Inl e \<Rightarrow> except_clauses url fr e s0)) | Inr fs' \<Rightarrow> fs')"
      and res: "Inr b = fst (case r0 of Inr b \<Rightarrow> (Inr b, s0) | Inl e \<Rightarrow> except_clauses url fr e s0)"
      using f finally_clause_pair_bound [OF t] assms by auto
    have dsk: "disk (snd (case r0 of Inr b \<Rightarrow> (Inr b, s0) | Inl e \<Rightarrow> except_clauses url fr e s0)) = disk s0"
      by (cases r0) (simp_all add: except_clauses_disk)
    from fin dsk have fin': "disk s' = (case os_remove ?T (disk s0) of Inl e \<Rightarrow> disk s0 | Inr fs' \<Rightarrow> fs')"
      by (simp split: sum.splits)
    from dedup_and_store_cases [OF ds] show ?thesis
    proof (elim disjE conjE exE)
      fix e assume "disk s0 = disk (s\<lparr>disk := fs2\<rparr>)" "r0 = Inl e"
      then have "\<not> b" "disk s0 = fs2" using res except_clauses_bound [OF p, of url e s0] by auto
      with pf mk op fin' show ?thesis by blast
    next
      fix h m
      assume "r0 = Inr False" "os_remove ?T (disk (s\<lparr>disk := fs2\<rparr>)) = Inr (disk s0)"
        "get_file_hash P (disk (s\<lparr>disk := fs2\<rparr>)) ?T = Inr h"
        "scan_existing P (disk (s\<lparr>disk := fs2\<rparr>)) d ?T h (map fst (entries (disk (s\<lparr>disk := fs2\<rparr>)))) = Inr (Some m)"
      then have "\<not> b" "os_remove ?T fs2 = Inr (disk s0)" "get_file_hash P fs2 ?T = Inr h"
        "scan_existing P fs2 d ?T h (map fst (entries fs2)) = Inr (Some m)"
        using res by auto
      with pf mk op fin' show ?thesis by blast
    next
      fix h
      assume "r0 = Inr True" "os_rename ?T (final_path_of P url d) (disk (s\<lparr>disk := fs2\<rparr>)) = Inr (disk s0)"
        "get_file_hash P (disk (s\<lparr>disk := fs2\<rparr>)) ?T = Inr h"
        "scan_existing P (disk (s\<lparr>disk := fs2\<rparr>)) d ?T h (map fst (entries (disk (s\<lparr>disk := fs2\<rparr>)))) = Inr None"
      then have "b" "os_rename ?T (final_path_of P url d) fs2 = Inr (disk s0)" "get_file_hash P fs2 ?T = Inr h"
        "scan_existing P fs2 d ?T h (map fst (entries fs2)) = Inr None"
        using res by auto
      with pf mk op fin' show ?thesis by blast
    qed
  qed
qed

section \<open>The directory primitives\<close>

lemma temp_path_of_join:
  "temp_path_of P url d = join d (filename_of P url @ ''.tmp'')"
  unfolding temp_path_of_def final_path_of_def filename_of_def
  by (rule join_append [OF derive_filename_no_slash derive_filename_nonempty])

lemma filename_of_no_slash: "CHR ''/'' \<notin> set (filename_of P url)"
  unfolding filename_of_def by (rule derive_filename_no_slash)

lemma temp_name_no_slash: "CHR ''/'' \<notin> set (filename_of P url @ ''.tmp'')"
  using filename_of_no_slash [of P url] by simp

lemma basename_temp_path: "basename (temp_path_of P url d) = filename_of P url @ ''.tmp''"
  unfolding temp_path_of_join by (rule basename_join [OF temp_name_no_slash])

lemma basename_final_path: "basename (final_path_of P url d) = filename_of P url"
  unfolding final_path_of_def by (rule basename_join [OF filename_of_no_slash])

lemma temp_name_neq_filename: "filename_of P url @ ''.tmp'' \<noteq> filename_of P url"
  by simp

lemma temp_path_neq_final_path: "temp_path_of P url d \<noteq> final_path_of P url d"
  by (simp add: temp_path_of_def)

lemma os_makedirs_Inr:
  assumes "os_makedirs d fs = Inr fs1"
  shows "(dir_present fs \<and> fs1 = fs)
       \<or> (\<not> dir_present fs \<and>
          fs1 = fs\<lparr>dir_present := True, dir_writable := True, entries := [],
                    history := history fs @ [Made_dir d]\<rparr>)"
  using assms by (auto simp: os_makedirs_def split: if_splits)

lemma open_wb_write_Inr:
  assumes "open_wb_write p data fs = Inr fs2"
  shows "fs2 = fs\<lparr>entries := AList.update (basename p) (File data) (entries fs),
                   history := history fs @ [Wrote p data]\<rparr> \<and> dir_present fs \<and>
         lookup fs p \<noteq> Some Dir \<and> (lookup fs p = None \<longrightarrow> dir_writable fs)"
  using assms by (auto simp: open_wb_write_def split: if_splits option.splits node.splits)

lemma open_wb_write_Inl:
  assumes "open_wb_write p data fs = Inl e" "dir_present fs"
  shows "lookup fs p = Some Dir \<or> (lookup fs p = None \<and> \<not> dir_writable fs)"
  using assms by (auto simp: open_wb_write_def split: if_splits option.splits node.splits)

lemma os_remove_Inr:
  assumes "os_remove p fs = Inr fs'"
  shows "fs' = fs\<lparr>entries := AList.delete (basename p) (entries fs),
                   history := history fs @ [Removed p]\<rparr> \<and> dir_writable fs \<and>
         is_file (lookup fs p)"
  using assms by (auto simp: os_remove_def is_file_def split: if_splits option.splits node.splits)

lemma os_remove_file:
  assumes "lookup fs p = Some (File data)" "dir_writable fs"
  shows "os_remove p fs = Inr (fs\<lparr>entries := AList.delete (basename p) (entries fs),
                                  history := history fs @ [Removed p]\<rparr>)"
  using assms by (simp add: os_remove_def)

lemma os_rename_Inr:
  assumes "os_rename src dst fs = Inr fs'"
  shows "\<exists>nd. lookup fs src = Some nd \<and> dir_writable fs \<and>
           fs' = fs\<lparr>entries := AList.update (basename dst) nd (AList.delete (basename src) (entries fs)),
                     history := history fs @ [Renamed src dst]\<rparr>"
  using assms
  by (auto simp: os_rename_def split: if_splits option.splits node.splits)

lemma lookup_entries:
  "dir_present fs \<Longrightarrow> lookup fs p = map_of (entries fs) (basename p)"
  by (simp add: lookup_def)

text \<open>What the cleanup of the finally clause does to the directory.\<close>

lemma cleanup_entries:
  "entries (case os_remove t fsT of Inl e \<Rightarrow> fsT | Inr fs' \<Rightarrow> fs') = entries fsT
 \<or> entries (case os_remove t fsT of Inl e \<Rightarrow> fsT | Inr fs' \<Rightarrow> fs') = AList.delete (basename t) (entries fsT)"
  by (cases "os_remove t fsT") (auto dest: os_remove_Inr)

lemma cleanup_flags:
  "dir_present (case os_remove t fsT of Inl e \<Rightarrow> fsT | Inr fs' \<Rightarrow> fs') = dir_present fsT"
  "dir_writable (case os_remove t fsT of Inl e \<Rightarrow> fsT | Inr fs' \<Rightarrow> fs') = dir_writable fsT"
  by (cases "os_remove t fsT"; auto dest: os_remove_Inr)+

lemma cleanup_writable_no_file:
  assumes "dir_writable fsT"
  shows "\<not> is_file (lookup (case os_remove t fsT of Inl e \<Rightarrow> fsT | Inr fs' \<Rightarrow> fs') t)"
proof (cases "lookup fsT t")
  case None
  then show ?thesis by (simp add: os_remove_def is_file_def)
next
  case (Some nd)
  show ?thesis
  proof (cases nd)
    case (File data)
    with Some assms have "dir_present fsT" by (auto simp: lookup_def split: if_splits)
    with Some File assms show ?thesis
      by (simp add: os_remove_file lookup_def is_file_def AList.delete_conv')
  next
    case Dir
    with Some assms show ?thesis by (simp add: os_remove_def is_file_def)
  qed
qed

section \<open>Hashes of a listing and the scan\<close>

lemma file_hashes_mem:
  "h \<in> set (file_hashes P es) \<longleftrightarrow> (\<exists>n data. (n, File data) \<in> set es \<and> h = sha256_hexdigest P data)"
  by (induction P es rule: file_hashes.induct) auto

lemma file_hashes_delete_subset:
  "set (file_hashes P (AList.delete k es)) \<subseteq> set (file_hashes P es)"
  by (induction P es rule: file_hashes.induct) auto

lemma file_hashes_delete_distinct:
  "distinct (file_hashes P es) \<Longrightarrow> distinct (file_hashes P (AList.delete k es))"
proof (induction P es rule: file_hashes.induct)
  case (2 P n data es)
  then show ?case using file_hashes_delete_subset [of P k es] by auto
qed auto

lemma file_hashes_update_subset:
  "set (file_hashes P (AList.update k (File c) es)) \<subseteq>
     insert (sha256_hexdigest P c) (set (file_hashes P es))"
  by (induction P es rule: file_hashes.induct) auto

lemma fresh_hash_not_mem:
  assumes "k \<notin> fst ` set es"
    and "\<forall>n data. (n, File data) \<in> set es \<and> n \<noteq> k \<longrightarrow> sha256_hexdigest P data \<noteq> sha256_hexdigest P c"
  shows "sha256_hexdigest P c \<notin> set (file_hashes P es)"
proof
  assume "sha256_hexdigest P c \<in> set (file_hashes P es)"
  then obtain m d where m: "(m, File d) \<in> set es" "sha256_hexdigest P c = sha256_hexdigest P d"
    by (auto simp: file_hashes_mem)
  with assms(1) have "m \<noteq> k" by force
  with m assms(2) show False by auto
qed

lemma file_hashes_update_distinct:
  assumes "distinct (map fst es)" "distinct (file_hashes P es)"
    and "\<forall>n data. (n, File data) \<in> set es \<and> n \<noteq> k \<longrightarrow> sha256_hexdigest P data \<noteq> sha256_hexdigest P c"
  shows "distinct (file_hashes P (AList.update k (File c) es))"
  using assms
proof (induction P es rule: file_hashes.induct)
  case (1 P)
  then show ?case by simp
next
  case (2 P n data es)
  show ?case
  proof (cases "n = k")
    case True
    have "sha256_hexdigest P c \<notin> set (file_hashes P es)"
      using fresh_hash_not_mem [of k es P c] "2.prems" True by auto
    with True "2.prems"(2) show ?thesis by simp
  next
    case False
    have ih: "distinct (file_hashes P (AList.update k (File c) es))"
      using "2.IH" "2.prems" by auto
    have "sha256_hexdigest P data \<noteq> sha256_hexdigest P c" using "2.prems"(3) False by auto
    moreover have "sha256_hexdigest P data \<notin> set (file_hashes P es)" using "2.prems"(2) by simp
    ultimately have "sha256_hexdigest P data \<notin> set (file_hashes P (AList.update k (File c) es))"
      using file_hashes_update_subset [of P k c es] by auto
    with False ih show ?thesis by simp
  qed
next
  case (3 P n es)
  show ?case
  proof (cases "n = k")
    case True
    have "sha256_hexdigest P c \<notin> set (file_hashes P es)"
      using fresh_hash_not_mem [of k es P c] "3.prems" True by auto
    with True "3.prems"(2) show ?thesis by simp
  next
    case False
    then show ?thesis using "3.IH" "3.prems" by auto
  qed
qed

text \<open>The scan, read through the directory's entries.\<close>

lemma scan_existing_None:
  assumes "scan_existing P fs d temp h names = Inr None" "n \<in> set names" "join d n \<noteq> temp"
  shows "\<exists>h'. get_file_hash P fs (join d n) = Inr h' \<and> h' \<noteq> h"
  using assms
  by (induction names) (auto simp: Let_def split: if_splits sum.splits)

lemma scan_existing_Some:
  assumes "scan_existing P fs d temp h names = Inr (Some m)"
  shows "m \<in> set names \<and> join d m \<noteq> temp \<and> get_file_hash P fs (join d m) = Inr h"
  using assms
  by (induction names) (auto simp: Let_def split: if_splits sum.splits)

lemma scan_existing_finds:
  assumes "m \<in> set names" "join d m \<noteq> temp" "get_file_hash P fs (join d m) = Inr h"
    and "\<forall>n \<in> set names. n \<noteq> m \<longrightarrow> join d n \<noteq> temp \<longrightarrow>
           (\<exists>h'. get_file_hash P fs (join d n) = Inr h' \<and> h' \<noteq> h)"
  shows "scan_existing P fs d temp h names = Inr (Some m)"
  using assms
  by (induction names) (auto simp: Let_def split: if_splits sum.splits)

lemma get_file_hash_entry:
  assumes "dir_present fs" "CHR ''/'' \<notin> set n"
  shows "get_file_hash P fs (join d n) =
           (case map_of (entries fs) n of
              None \<Rightarrow> Inr None
            | Some Dir \<Rightarrow> Inl (IsADirectoryError (errno_msg ''[Errno 21] Is a directory'' (join d n)))
            | Some (File data) \<Rightarrow> Inr (Some (sha256_hexdigest P data)))"
  using assms by (simp add: get_file_hash_lookup lookup_def basename_join)

section \<open>Content-type validation\<close>

lemma lower_valid_types: "v \<in> set valid_types \<Longrightarrow> lower v = v"
  by (auto simp: valid_types_def lower_def lower_char_def)

lemma strip_valid_types: "v \<in> set valid_types \<Longrightarrow> strip v = v"
  by (auto simp: valid_types_def strip_def is_space_def)

text \<open>
  Claim C9. \<open>is_valid_image\<close> accepts a header value exactly when it is, as a string, one
  of \<open>image/jpeg\<close>, \<open>image/png\<close>, \<open>image/gif\<close>, \<open>image/bmp\<close>. So every value that
  carries media-type parameters (it contains a semicolon), every value that is not all in
  lower case, and every value with white space around it is rejected, also when it names
  an allow-listed format.
\<close>

theorem is_valid_image_exact:
  "(is_valid_image ct \<longleftrightarrow>
      ct = ''image/jpeg'' \<or> ct = ''image/png'' \<or> ct = ''image/gif'' \<or> ct = ''image/bmp'') \<and>
   (CHR '';'' \<in> set ct \<longrightarrow> \<not> is_valid_image ct) \<and>
   (lower ct \<noteq> ct \<longrightarrow> \<not> is_valid_image ct) \<and>
   (strip ct \<noteq> ct \<longrightarrow> \<not> is_valid_image ct)"
proof (intro conjI impI)
  show "is_valid_image ct \<longleftrightarrow>
      ct = ''image/jpeg'' \<or> ct = ''image/png'' \<or> ct = ''image/gif'' \<or> ct = ''image/bmp''"
    by (auto simp: is_valid_image_def valid_types_def)
next
  assume "CHR '';'' \<in> set ct"
  then show "\<not> is_valid_image ct"
    by (auto simp: is_valid_image_def valid_types_def)
next
  assume "lower ct \<noteq> ct"
  then show "\<not> is_valid_image ct"
    using lower_valid_types [of ct] by (auto simp: is_valid_image_def)
next
  assume "strip ct \<noteq> ct"
  then show "\<not> is_valid_image ct"
    using strip_valid_types [of ct] by (auto simp: is_valid_image_def)
qed

text \<open>
  The three rejections at the values \<open>image/jpeg; charset=utf-8\<close>, \<open>IMAGE/JPEG\<close> and
  \<open>image/jpeg\<close> between blanks, beside the accepted \<open>image/jpeg\<close>.
\<close>

theorem is_valid_image_exact_witness:
  "is_valid_image ''image/jpeg'' \<and>
   \<not> is_valid_image ''image/jpeg; charset=utf-8'' \<and>
   \<not> is_valid_image ''IMAGE/JPEG'' \<and>
   \<not> is_valid_image '' image/jpeg ''"
proof -
  have a: "CHR '';'' \<in> set ''image/jpeg; charset=utf-8''" by simp
  have b: "lower ''IMAGE/JPEG'' \<noteq> ''IMAGE/JPEG''" by (simp add: lower_def lower_char_def)
  have c: "strip '' image/jpeg '' \<noteq> '' image/jpeg ''" by (simp add: strip_def is_space_def)
  have v: "is_valid_image ''image/jpeg''"
    using is_valid_image_exact [of "''image/jpeg''"] by simp
  have na: "\<not> is_valid_image ''image/jpeg; charset=utf-8''"
    using is_valid_image_exact [of "''image/jpeg; charset=utf-8''"] a by (elim conjE) (erule mp)
  have nb: "\<not> is_valid_image ''IMAGE/JPEG''"
    using is_valid_image_exact [of "''IMAGE/JPEG''"] b by (elim conjE) (erule mp)
  have nc: "\<not> is_valid_image '' image/jpeg ''"
    using is_valid_image_exact [of "'' image/jpeg ''"] c by (elim conjE) (erule mp)
  from v na nb nc show ?thesis by (intro conjI)
qed

section \<open>Hashing a path that names no entry\<close>




section \<open>The file name\<close>









lemma is_digit_digit_char: "is_digit (digit_char d)"
  using digit_char_in [of d] by (simp add: is_digit_def)














section \<open>Exits before the temporary path is assigned\<close>

lemmas eval_defs =
  fetch_and_save_image_def try_body_def dedup_and_store_def finally_clause_def
  raise_for_status_def headers_get_def is_valid_image_def valid_types_def
  derive_filename_def image_suffixes_def endswith_any_def endswith_def
  os_makedirs_def open_wb_write_def os_listdir_def os_path_exists_def os_remove_def
  os_rename_def lookup_def get_file_hash_lookup join_def basename_def
  lower_def lower_char_def print_def unbound_def errno_msg_def
  ex_platform_def ex_response_def ex_state_def ex_dir_def ex_digest_def
  cross_def tick_def quote_def newline_def Let_def

lemma fetch_request_fails:
  assumes "requests_get P url = Inl e"
  shows "fetch_and_save_image P url d s =
           (Inl (UnboundLocalError ''temp_path''), snd (except_clauses url unbound e s))"
  using assms
  by (simp add: fetch_and_save_image_def try_body_def finally_clause_pair_unbound unbound_def)

lemma fetch_http_error:
  assumes "requests_get P url = Inr resp" "raise_for_status resp = Inl e"
  shows "fetch_and_save_image P url d s =
           (Inl (UnboundLocalError ''temp_path''), snd (except_clauses url unbound e s))"
  using assms
  by (simp add: fetch_and_save_image_def try_body_def finally_clause_pair_unbound unbound_def)

lemma fetch_invalid_content_type:
  assumes "requests_get P url = Inr resp" "raise_for_status resp = Inr ()"
    and "\<not> is_valid_image (headers_get (headers resp) ''Content-Type'' [])"
  shows "fetch_and_save_image P url d s =
           (Inl (UnboundLocalError ''temp_path''),
            print (cross @ '' Error for '' @ url @ '': Invalid content type ('' @
                   headers_get (headers resp) ''Content-Type'' [] @
                   ''). Expected an image.'') s)"
  using assms
  by (simp add: fetch_and_save_image_def try_body_def finally_clause_unbound unbound_def Let_def)

text \<open>
  Claim C5. A 200 response whose declared content type is absent or not on the allow-list
  should make the call return \<open>False\<close> with the invalid-content-type message and create
  no file. At the response \<open>text/html\<close> the call prints that message and leaves the
  directory as it was, but it does not return: \<open>return False\<close> runs the \<open>finally\<close>
  clause, which reads \<open>temp_path\<close> before any assignment to it, so the call raises
  \<open>UnboundLocalError\<close> (in general: \<open>fetch_invalid_content_type\<close>).
\<close>

theorem invalid_content_type_raises:
  "fetch_and_save_image (ex_platform (Inr (ex_response ''text/html'' ''<html></html>'')) ''/page'' ex_now)
     ''https://site/page'' ''Fetched_Images'' (ex_state True []) =
   (Inl (UnboundLocalError ''temp_path''),
    \<lparr>disk = ex_dir True [],
     console = [cross @ '' Error for https://site/page: Invalid content type (text/html). Expected an image.'']\<rparr>)"
  by (simp add: eval_defs)

text \<open>
  Claim C1. Every error of a call should be caught at the per-URL boundary and turned into
  the return value \<open>False\<close> with a message, so that nothing propagates and \<open>main\<close> always
  reaches its summary. At a URL whose request fails to connect, the \<open>except\<close> clause
  prints its message and returns \<open>False\<close>, but the \<open>finally\<close> clause then reads the
  unassigned \<open>temp_path\<close> and raises \<open>UnboundLocalError\<close> out of the call; in \<open>main\<close> the
  exception is re-raised when the results are counted, and the run ends with the
  unexpected-error line in place of the summary.
\<close>

theorem connection_error_raises:
  "fetch_and_save_image (ex_platform (Inl (ConnectionError ''refused'')) ''/a.png'' ex_now)
     ''https://site/a.png'' ''Fetched_Images'' (ex_state True []) =
   (Inl (UnboundLocalError ''temp_path''),
    \<lparr>disk = ex_dir True [],
     console = [cross @ '' Error for https://site/a.png: Failed to connect to the server.'']\<rparr>) \<and>
   console (main (ex_platform (Inl (ConnectionError ''refused'')) ''/a.png'' ex_now)
              [''https://site/a.png'', ''''] (ex_state True [])) =
   [''Welcome to the Ubuntu Image Fetcher'',
    ''A tool for mindfully collecting images from the web'' @ newline,
    ''Enter image URLs (one per line, press Enter twice to finish):'',
    cross @ '' Error for https://site/a.png: Failed to connect to the server.'',
    cross @ '' An unexpected error occurred: cannot access local variable '' @ quote @
      ''temp_path'' @ quote @ '' where it is not associated with a value'']"
  by (simp add: eval_defs main_def strip_def is_space_def default_directory_def summarize_def
        unexpected_line_def)

section \<open>The summary of \<open>main\<close>\<close>












section \<open>The directory after a call that returns\<close>

lemma basename_temp_name: "basename (temp_path_of P url d) = temp_name_of P url"
  by (simp add: basename_temp_path temp_name_of_def)

lemma temp_name_slash_free: "CHR ''/'' \<notin> set (temp_name_of P url)"
  unfolding temp_name_of_def by (rule temp_name_no_slash)

lemma temp_path_join: "temp_path_of P url d = join d (temp_name_of P url)"
  by (simp add: temp_path_of_join temp_name_of_def)

lemma temp_name_neq: "temp_name_of P url \<noteq> filename_of P url"
  by (simp add: temp_name_of_def)

lemma os_makedirs_wf:
  assumes "os_makedirs d fs = Inr fs1" "wf_fs fs"
  shows "wf_fs fs1 \<and> dir_present fs1"
  using os_makedirs_Inr [OF assms(1)] assms(2) by (auto simp: wf_fs_def)

lemma os_makedirs_entries:
  assumes "os_makedirs d fs = Inr fs1" "wf_fs fs"
  shows "entries fs1 = entries fs"
  using os_makedirs_Inr [OF assms(1)] assms(2) by (auto simp: wf_fs_def)

lemma os_makedirs_writable:
  assumes "os_makedirs d fs = Inr fs1" "dir_present fs \<longrightarrow> dir_writable fs"
  shows "dir_writable fs1"
  using os_makedirs_Inr [OF assms(1)] assms(2) by auto

lemma os_remove_Inl_no_change:
  "os_remove t fs = Inl e \<Longrightarrow> (case os_remove t fs of Inl e \<Rightarrow> fs | Inr fs' \<Rightarrow> fs') = fs"
  by simp

lemma os_remove_absent: "lookup fs t = None \<Longrightarrow> \<exists>e. os_remove t fs = Inl e"
  by (simp add: os_remove_def)

lemma os_remove_dir: "lookup fs t = Some Dir \<Longrightarrow> \<exists>e. os_remove t fs = Inl e"
  by (simp add: os_remove_def)

lemma os_remove_readonly: "\<not> dir_writable fs \<Longrightarrow> \<exists>e. os_remove t fs = Inl e"
  by (auto simp: os_remove_def split: option.splits)

text \<open>The scan that ends without a match has seen only files with other hashes.\<close>

lemma scan_no_match_entries:
  assumes scan: "scan_existing P fs d (join d tn) (Some h) (map fst (entries fs)) = Inr None"
    and pres: "dir_present fs" and dist: "distinct (map fst (entries fs))"
    and slash: "\<forall>n \<in> set (map fst (entries fs)). CHR ''/'' \<notin> set n" "CHR ''/'' \<notin> set tn"
    and mem: "(n, nd) \<in> set (entries fs)" "n \<noteq> tn"
  shows "\<exists>data. nd = File data \<and> sha256_hexdigest P data \<noteq> h"
proof -
  from mem(1) have n: "n \<in> set (map fst (entries fs))" by force
  with slash(1) have ns: "CHR ''/'' \<notin> set n" by blast
  have "join d n \<noteq> join d tn" using join_inject [OF ns slash(2)] mem(2) by simp
  from scan_existing_None [OF scan n this]
  obtain h' where h': "get_file_hash P fs (join d n) = Inr h'" "h' \<noteq> Some h" by blast
  have "map_of (entries fs) n = Some nd" using dist mem(1) by simp
  with h' get_file_hash_entry [OF pres ns, of P d] show ?thesis
    by (cases nd) auto
qed

lemma fetch_returns_disk:
  assumes f: "fetch_and_save_image P url d s = (Inr b, s')" and wf: "wf_fs (disk s)"
  shows "\<exists>resp fs1. passes_fetcher P url resp \<and> os_makedirs d (disk s) = Inr fs1 \<and>
     ((\<not> b \<and> disk s' = fs1)
    \<or> (\<not> b \<and> dir_writable fs1 \<and>
        disk s' = fs1\<lparr>entries := AList.delete (temp_name_of P url) (entries fs1),
                       history := history fs1 @ [Wrote (temp_path_of P url d) (content resp),
                                                 Removed (temp_path_of P url d)]\<rparr>)
    \<or> (\<not> b \<and> \<not> dir_writable fs1 \<and>
        disk s' = fs1\<lparr>entries := AList.update (temp_name_of P url) (File (content resp)) (entries fs1),
                       history := history fs1 @ [Wrote (temp_path_of P url d) (content resp)]\<rparr>)
    \<or> (b \<and> dir_writable fs1 \<and>
        disk s' = fs1\<lparr>entries := AList.update (filename_of P url) (File (content resp))
                                    (AList.delete (temp_name_of P url) (entries fs1)),
                       history := history fs1 @ [Wrote (temp_path_of P url d) (content resp),
                                                 Renamed (temp_path_of P url d) (final_path_of P url d)]\<rparr> \<and>
        (\<forall>n nd. (n, nd) \<in> set (entries fs1) \<and> n \<noteq> temp_name_of P url \<longrightarrow>
           (\<exists>data. nd = File data \<and>
              sha256_hexdigest P data \<noteq> sha256_hexdigest P (content resp)))))"
proof -
  let ?T = "temp_path_of P url d" and ?F = "final_path_of P url d"
  let ?tn = "temp_name_of P url" and ?fn = "filename_of P url"
  from fetch_returns [OF f] obtain resp fs1 fsT where
    pf: "passes_fetcher P url resp" and mk: "os_makedirs d (disk s) = Inr fs1"
    and fin: "disk s' = (case os_remove ?T fsT of Inl e \<Rightarrow> fsT | Inr fs' \<Rightarrow> fs')"
    and cases: "(\<not> b \<and> fsT = fs1 \<and> (\<exists>e. open_wb_write ?T (content resp) fs1 = Inl e))
          \<or> (\<exists>fs2. open_wb_write ?T (content resp) fs1 = Inr fs2 \<and>
               ((\<not> b \<and> fsT = fs2)
              \<or> (\<not> b \<and> os_remove ?T fs2 = Inr fsT \<and>
                   (\<exists>h m. get_file_hash P fs2 ?T = Inr h \<and>
                      scan_existing P fs2 d ?T h (map fst (entries fs2)) = Inr (Some m)))
              \<or> (b \<and> os_rename ?T ?F fs2 = Inr fsT \<and>
                   (\<exists>h. get_file_hash P fs2 ?T = Inr h \<and>
                      scan_existing P fs2 d ?T h (map fst (entries fs2)) = Inr None))))"
    by blast
  let ?c = "content resp"
  from os_makedirs_wf [OF mk wf] have wf1: "wf_fs fs1" and pres1: "dir_present fs1" by simp_all
  have bT: "basename ?T = ?tn" by (rule basename_temp_name)
  have bF: "basename ?F = ?fn" by (rule basename_final_path)
  from cases have
    "(\<not> b \<and> disk s' = fs1)
    \<or> (\<not> b \<and> dir_writable fs1 \<and>
        disk s' = fs1\<lparr>entries := AList.delete ?tn (entries fs1),
                       history := history fs1 @ [Wrote ?T ?c, Removed ?T]\<rparr>)
    \<or> (\<not> b \<and> \<not> dir_writable fs1 \<and>
        disk s' = fs1\<lparr>entries := AList.update ?tn (File ?c) (entries fs1),
                       history := history fs1 @ [Wrote ?T ?c]\<rparr>)
    \<or> (b \<and> dir_writable fs1 \<and>
        disk s' = fs1\<lparr>entries := AList.update ?fn (File ?c) (AList.delete ?tn (entries fs1)),
                       history := history fs1 @ [Wrote ?T ?c, Renamed ?T ?F]\<rparr> \<and>
        (\<forall>n nd. (n, nd) \<in> set (entries fs1) \<and> n \<noteq> ?tn \<longrightarrow>
           (\<exists>data. nd = File data \<and> sha256_hexdigest P data \<noteq> sha256_hexdigest P ?c)))"
  proof (elim disjE conjE exE)
    fix e
    assume nb: "\<not> b" and eq: "fsT = fs1" and op: "open_wb_write ?T ?c fs1 = Inl e"
    from open_wb_write_Inl [OF op pres1]
    have "\<exists>e. os_remove ?T fs1 = Inl e"
      using os_remove_absent os_remove_dir by blast
    with fin eq nb show ?thesis by auto
  next
    fix fs2
    assume op: "open_wb_write ?T ?c fs1 = Inr fs2" and nb: "\<not> b" and eq: "fsT = fs2"
    from open_wb_write_Inr [OF op] bT
    have fs2: "fs2 = fs1\<lparr>entries := AList.update ?tn (File ?c) (entries fs1),
                         history := history fs1 @ [Wrote ?T ?c]\<rparr>"
      by simp
    then have l2: "lookup fs2 ?T = Some (File ?c)"
      using pres1 bT by (simp add: lookup_def AList.update_conv')
    show ?thesis
    proof (cases "dir_writable fs1")
      case True
      then have "dir_writable fs2" using fs2 by simp
      from os_remove_file [OF l2 this] fin eq
      have "disk s' = fs2\<lparr>entries := AList.delete (basename ?T) (entries fs2),
                           history := history fs2 @ [Removed ?T]\<rparr>"
        by simp
      then have "disk s' = fs1\<lparr>entries := AList.delete ?tn (entries fs1),
                       history := history fs1 @ [Wrote ?T ?c, Removed ?T]\<rparr>"
        using fs2 bT by (simp add: AList.delete_update_same)
      with nb True show ?thesis by simp
    next
      case False
      then have "\<not> dir_writable fs2" using fs2 by simp
      from os_remove_readonly [OF this, of ?T] fin eq have "disk s' = fs2" by auto
      with nb False fs2 show ?thesis by simp
    qed
  next
    fix fs2 h m
    assume op: "open_wb_write ?T ?c fs1 = Inr fs2" and nb: "\<not> b"
      and rm: "os_remove ?T fs2 = Inr fsT"
    from open_wb_write_Inr [OF op] bT
    have fs2: "fs2 = fs1\<lparr>entries := AList.update ?tn (File ?c) (entries fs1),
                         history := history fs1 @ [Wrote ?T ?c]\<rparr>"
      by simp
    from os_remove_Inr [OF rm] bT fs2
    have fsT: "fsT = fs1\<lparr>entries := AList.delete ?tn (entries fs1),
                       history := history fs1 @ [Wrote ?T ?c, Removed ?T]\<rparr>"
      and w: "dir_writable fs1"
      by (simp_all add: AList.delete_update_same)
    have "lookup fsT ?T = None"
      using fsT pres1 bT by (simp add: lookup_def AList.delete_conv')
    from os_remove_absent [OF this] fin have "disk s' = fsT" by auto
    with nb w fsT show ?thesis by simp
  next
    fix fs2 h
    assume op: "open_wb_write ?T ?c fs1 = Inr fs2" and b: "b"
      and rn: "os_rename ?T ?F fs2 = Inr fsT"
      and gh: "get_file_hash P fs2 ?T = Inr h"
      and sc: "scan_existing P fs2 d ?T h (map fst (entries fs2)) = Inr None"
    from open_wb_write_Inr [OF op] bT
    have fs2: "fs2 = fs1\<lparr>entries := AList.update ?tn (File ?c) (entries fs1),
                         history := history fs1 @ [Wrote ?T ?c]\<rparr>"
      by simp
    then have l2: "lookup fs2 ?T = Some (File ?c)"
      using pres1 bT by (simp add: lookup_def AList.update_conv')
    from os_rename_Inr [OF rn] l2 bT bF fs2
    have fsT: "fsT = fs1\<lparr>entries := AList.update ?fn (File ?c) (AList.delete ?tn (entries fs1)),
                       history := history fs1 @ [Wrote ?T ?c, Renamed ?T ?F]\<rparr>"
      and w: "dir_writable fs1"
      by (auto simp: AList.delete_update_same)
    have "lookup fsT ?T = None"
      using fsT pres1 bT temp_name_neq [of P url]
      by (simp add: lookup_def AList.delete_conv' AList.update_conv')
    from os_remove_absent [OF this] fin have d': "disk s' = fsT" by auto
    have h: "h = Some (sha256_hexdigest P ?c)"
      using gh l2 by (simp add: get_file_hash_lookup)
    have pres2: "dir_present fs2" using fs2 pres1 by simp
    have dist2: "distinct (map fst (entries fs2))"
      using wf1 fs2 by (simp add: wf_fs_def AList.distinct_update)
    have slash2: "\<forall>n \<in> set (map fst (entries fs2)). CHR ''/'' \<notin> set n"
      using wf1 fs2 temp_name_slash_free [of P url]
      by (auto simp: wf_fs_def AList.dom_update)
    have nomatch: "\<exists>data. nd = File data \<and> sha256_hexdigest P data \<noteq> sha256_hexdigest P ?c"
      if mem: "(n, nd) \<in> set (entries fs1)" and ne: "n \<noteq> ?tn" for n nd
    proof -
      have "map_of (entries fs1) n = Some nd" using wf1 mem by (simp add: wf_fs_def)
      then have "map_of (entries fs2) n = Some nd" using fs2 ne by (simp add: AList.update_conv')
      then have mem2: "(n, nd) \<in> set (entries fs2)" by (rule map_of_SomeD)
      from sc h have sc': "scan_existing P fs2 d (join d ?tn) (Some (sha256_hexdigest P ?c))
                             (map fst (entries fs2)) = Inr None"
        by (simp add: temp_path_join)
      from scan_no_match_entries [OF sc' pres2 dist2 slash2 temp_name_slash_free mem2 ne]
      show ?thesis .
    qed
    from b w d' fsT nomatch show ?thesis by blast
  qed
  with pf mk show ?thesis by blast
qed

section \<open>Cleanup of the temporary file\<close>

lemma finally_clause_keeps_result:
  "temp_path fr = Some temp \<Longrightarrow> fst (finally_clause fr (r, s0)) = r"
  by (simp add: finally_clause_bound)

lemma finally_clause_removes:
  assumes "temp_path fr = Some temp" "dir_writable (disk s0)"
  shows "\<not> is_file (lookup (disk (snd (finally_clause fr (r, s0)))) temp)"
  using cleanup_writable_no_file [OF assms(2), of temp]
  by (simp add: finally_clause_bound [OF assms(1)])

lemma fetch_returns_no_temp:
  assumes f: "fetch_and_save_image P url d s = (Inr b, s')"
    and w: "dir_present (disk s) \<longrightarrow> dir_writable (disk s)"
  shows "\<not> is_file (lookup (disk s') (temp_path_of P url d))"
proof -
  let ?T = "temp_path_of P url d"
  from fetch_returns [OF f] obtain resp fs1 fsT where
    pf: "passes_fetcher P url resp" and mk: "os_makedirs d (disk s) = Inr fs1"
    and fin: "disk s' = (case os_remove ?T fsT of Inl e \<Rightarrow> fsT | Inr fs' \<Rightarrow> fs')"
    and full: "(\<not> b \<and> fsT = fs1 \<and> (\<exists>e. open_wb_write ?T (content resp) fs1 = Inl e))
          \<or> (\<exists>fs2. open_wb_write ?T (content resp) fs1 = Inr fs2 \<and>
               ((\<not> b \<and> fsT = fs2)
              \<or> (\<not> b \<and> os_remove ?T fs2 = Inr fsT \<and>
                   (\<exists>h m. get_file_hash P fs2 ?T = Inr h \<and>
                      scan_existing P fs2 d ?T h (map fst (entries fs2)) = Inr (Some m)))
              \<or> (b \<and> os_rename ?T (final_path_of P url d) fs2 = Inr fsT \<and>
                   (\<exists>h. get_file_hash P fs2 ?T = Inr h \<and>
                      scan_existing P fs2 d ?T h (map fst (entries fs2)) = Inr None))))"
    by blast
  from full have cases: "fsT = fs1
          \<or> (\<exists>fs2. open_wb_write ?T (content resp) fs1 = Inr fs2 \<and>
               (fsT = fs2 \<or> os_remove ?T fs2 = Inr fsT
              \<or> os_rename ?T (final_path_of P url d) fs2 = Inr fsT))"
    by blast
  have w1: "dir_writable fs1" by (rule os_makedirs_writable [OF mk w])
  from cases have "dir_writable fsT"
  proof (elim disjE exE conjE)
    assume "fsT = fs1"
    with w1 show ?thesis by simp
  next
    fix fs2 assume "open_wb_write ?T (content resp) fs1 = Inr fs2" "fsT = fs2"
    with w1 show ?thesis by (auto dest: open_wb_write_Inr)
  next
    fix fs2 assume "open_wb_write ?T (content resp) fs1 = Inr fs2" "os_remove ?T fs2 = Inr fsT"
    then show ?thesis by (auto dest!: os_remove_Inr)
  next
    fix fs2 assume "open_wb_write ?T (content resp) fs1 = Inr fs2"
      "os_rename ?T (final_path_of P url d) fs2 = Inr fsT"
    then show ?thesis by (auto dest!: os_rename_Inr)
  qed
  from cleanup_writable_no_file [OF this, of ?T] fin show ?thesis by simp
qed

text \<open>
  Claim C4, as amended. On every exit path on which \<open>temp_path\<close> is assigned, the
  \<open>finally\<close> clause is the last step: it removes the temporary file when it exists,
  swallows a failure of the removal and leaves the pending result as it is. When the call
  returns and the directory is writable (when it exists at all), no temporary file remains
  on disk.
\<close>

theorem cleanup_on_return:
  "(temp_path fr = Some temp \<longrightarrow>
      fst (finally_clause fr (r, s0)) = r \<and>
      (dir_writable (disk s0) \<longrightarrow>
         \<not> is_file (lookup (disk (snd (finally_clause fr (r, s0)))) temp))) \<and>
   (fetch_and_save_image P url d s = (Inr b, s') \<and>
    (dir_present (disk s) \<longrightarrow> dir_writable (disk s)) \<longrightarrow>
      \<not> is_file (lookup (disk s') (temp_path_of P url d)))"
  using finally_clause_keeps_result [of fr temp r s0] finally_clause_removes [of fr temp s0 r]
    fetch_returns_no_temp [of P url d s b s']
  by blast

lemmas name_defs = temp_path_of_def final_path_of_def filename_of_def temp_name_of_def

text \<open>
  Claim C4 as stated fails where the removal fails: in a directory without write
  permission that holds a stale \<open>a.png.tmp\<close>, the call overwrites that file with the new
  content, cannot rename it, cannot remove it either, swallows the failure and returns
  \<open>False\<close>; the temporary file remains, with the fetched content.
\<close>

theorem temp_file_left_behind:
  "fst (fetch_and_save_image (ex_platform (Inr (ex_response ''image/png'' ''x'')) ''/a.png'' ex_now)
          ''https://site/a.png'' ''Fetched_Images''
          (ex_state False [(''a.png.tmp'', File ''old'')])) = Inr False \<and>
   temp_path_of (ex_platform (Inr (ex_response ''image/png'' ''x'')) ''/a.png'' ex_now)
     ''https://site/a.png'' ''Fetched_Images'' = ''Fetched_Images/a.png.tmp'' \<and>
   lookup (disk (snd (fetch_and_save_image
                        (ex_platform (Inr (ex_response ''image/png'' ''x'')) ''/a.png'' ex_now)
                        ''https://site/a.png'' ''Fetched_Images''
                        (ex_state False [(''a.png.tmp'', File ''old'')])))) 
          ''Fetched_Images/a.png.tmp'' = Some (File ''x'')"
  by (simp add: eval_defs name_defs)

text \<open>
  A \<open>finally\<close> clause that finds the temporary file and removes it, and a call that is
  skipped as a duplicate in a writable directory.
\<close>

theorem cleanup_on_return_witness:
  "fst (finally_clause \<lparr>file_path = Some ''Fetched_Images/a.png'',
                         temp_path = Some ''Fetched_Images/a.png.tmp''\<rparr>
          (Inr False, ex_state True [(''a.png.tmp'', File ''x'')])) = Inr False \<and>
   \<not> is_file (lookup (disk (snd (finally_clause
              \<lparr>file_path = Some ''Fetched_Images/a.png'', temp_path = Some ''Fetched_Images/a.png.tmp''\<rparr>
              (Inr False, ex_state True [(''a.png.tmp'', File ''x'')])))) ''Fetched_Images/a.png.tmp'') \<and>
   fst (fetch_and_save_image (ex_platform (Inr (ex_response ''image/png'' ''x'')) ''/a.png'' ex_now)
          ''https://site/a.png'' ''Fetched_Images''
          (ex_state True [(''b.png'', File ''x''), (''sub'', Dir)])) = Inr False \<and>
   \<not> is_file (lookup (disk (snd (fetch_and_save_image
              (ex_platform (Inr (ex_response ''image/png'' ''x'')) ''/a.png'' ex_now)
              ''https://site/a.png'' ''Fetched_Images''
              (ex_state True [(''b.png'', File ''x''), (''sub'', Dir)]))))
          (temp_path_of (ex_platform (Inr (ex_response ''image/png'' ''x'')) ''/a.png'' ex_now)
             ''https://site/a.png'' ''Fetched_Images''))"
proof -
  let ?fr = "\<lparr>file_path = Some ''Fetched_Images/a.png'', temp_path = Some ''Fetched_Images/a.png.tmp''\<rparr>"
  let ?ini = "ex_state True [(''a.png.tmp'', File ''x'')]"
  let ?P = "ex_platform (Inr (ex_response ''image/png'' ''x'')) ''/a.png'' ex_now"
  let ?s = "ex_state True [(''b.png'', File ''x''), (''sub'', Dir)]"
  let ?X = "fetch_and_save_image ?P ''https://site/a.png'' ''Fetched_Images'' ?s"
  have t: "temp_path ?fr = Some ''Fetched_Images/a.png.tmp''" by simp
  have w0: "dir_writable (disk ?ini)" by (simp add: ex_state_def ex_dir_def)
  have r: "fst ?X = Inr False" by (simp add: eval_defs)
  then have x: "?X = (Inr False, snd ?X)" by (metis prod.collapse)
  have w: "dir_present (disk ?s) \<longrightarrow> dir_writable (disk ?s)" by (simp add: ex_state_def ex_dir_def)
  note c = cleanup_on_return [where fr = ?fr and temp = "''Fetched_Images/a.png.tmp''"
      and r = "Inr False" and ?s0.0 = ?ini and P = ?P and url = "''https://site/a.png''"
      and d = "''Fetched_Images''" and s = ?s and b = False and s' = "snd ?X"]
  from c t have a1: "fst (finally_clause ?fr (Inr False, ?ini)) = Inr False" by blast
  from c t w0 have a2: "\<not> is_file (lookup (disk (snd (finally_clause ?fr (Inr False, ?ini)))) ''Fetched_Images/a.png.tmp'')"
    by blast
  from c x w have a3: "\<not> is_file (lookup (disk (snd ?X)) (temp_path_of ?P ''https://site/a.png'' ''Fetched_Images''))"
    by blast
  from a1 a2 r a3 show ?thesis by (intro conjI)
qed

section \<open>Hash uniqueness of the directory\<close>

lemma mem_delete: "(n, nd) \<in> set (AList.delete k es) \<longleftrightarrow> (n, nd) \<in> set es \<and> n \<noteq> k"
  by (auto simp: AList.delete_eq)

lemma names_delete: "fst ` set (AList.delete k es) \<subseteq> fst ` set es"
  by (auto simp: AList.delete_eq)

lemma wf_fs_after:
  assumes "wf_fs fs1" "dir_present fs1" "CHR ''/'' \<notin> set k"
    and "entries fs' = entries fs1 \<or> entries fs' = AList.delete t (entries fs1)
         \<or> entries fs' = AList.update k v (AList.delete t (entries fs1))"
    and "dir_present fs'"
  shows "wf_fs fs'"
proof -
  from assms(1) have d: "distinct (map fst (entries fs1))"
    and s: "\<forall>n \<in> fst ` set (entries fs1). CHR ''/'' \<notin> set n"
    by (simp_all add: wf_fs_def)
  have dd: "distinct (map fst (AList.delete t (entries fs1)))" using d by (rule AList.distinct_delete)
  have sd: "\<forall>n \<in> fst ` set (AList.delete t (entries fs1)). CHR ''/'' \<notin> set n"
    using s names_delete [of t "entries fs1"] by blast
  have du: "distinct (map fst (AList.update k v (AList.delete t (entries fs1))))"
    using dd by (rule AList.distinct_update)
  have su: "\<forall>n \<in> fst ` set (AList.update k v (AList.delete t (entries fs1))). CHR ''/'' \<notin> set n"
    using sd assms(3) by (simp add: AList.dom_update)
  from assms(4) show ?thesis
  proof (elim disjE)
    assume "entries fs' = entries fs1"
    with d s assms(5) show ?thesis by (simp add: wf_fs_def)
  next
    assume "entries fs' = AList.delete t (entries fs1)"
    with dd sd assms(5) show ?thesis by (simp add: wf_fs_def)
  next
    assume "entries fs' = AList.update k v (AList.delete t (entries fs1))"
    with du su assms(5) show ?thesis by (simp add: wf_fs_def)
  qed
qed

lemma passes_fetcher_unique:
  "passes_fetcher P url resp \<Longrightarrow> requests_get P url = Inr resp' \<Longrightarrow> resp' = resp"
  by (simp add: passes_fetcher_def)

text \<open>
  Claim C2, as amended. Starting from a well-formed, writable target directory in which no
  two files have equal content hashes, the directory is again well formed, writable and
  free of two files with equal hashes after a run of \<open>fetch_and_save_image\<close>, whatever
  its outcome. Where another entry of the directory has the hash of the fetched bytes, the
  call does not succeed, every entry other than the temporary file is as before, and when
  the call returns the temporary file is gone.
\<close>

theorem dedup_keeps_hashes_unique:
  assumes wf: "wf_fs (disk s)" and hu: "hash_unique P (disk s)"
    and w: "dir_present (disk s) \<longrightarrow> dir_writable (disk s)"
    and f: "fetch_and_save_image P url d s = (r, s')"
  shows "hash_unique P (disk s') \<and> wf_fs (disk s') \<and>
         (dir_present (disk s') \<longrightarrow> dir_writable (disk s')) \<and>
         (\<forall>resp n data.
            requests_get P url = Inr resp \<and>
            map_of (entries (disk s)) n = Some (File data) \<and> n \<noteq> temp_name_of P url \<and>
            sha256_hexdigest P data = sha256_hexdigest P (content resp) \<longrightarrow>
              r \<noteq> Inr True \<and>
              (\<forall>m. m \<noteq> temp_name_of P url \<longrightarrow>
                 map_of (entries (disk s')) m = map_of (entries (disk s)) m) \<and>
              (\<forall>b. r = Inr b \<longrightarrow> \<not> is_file (lookup (disk s') (temp_path_of P url d))))"
proof (cases r)
  case (Inl e)
  with f fetch_raises [of P url d s e s'] have "disk s' = disk s" by simp
  with wf hu w Inl show ?thesis by simp
next
  case (Inr b)
  let ?tn = "temp_name_of P url" and ?fn = "filename_of P url"
  let ?es = "entries (disk s)"
  from f Inr have fb: "fetch_and_save_image P url d s = (Inr b, s')" by simp
  from fetch_returns_disk [OF fb wf] obtain resp fs1 where
    pf: "passes_fetcher P url resp" and mk: "os_makedirs d (disk s) = Inr fs1"
    and cases: "(\<not> b \<and> disk s' = fs1)
    \<or> (\<not> b \<and> dir_writable fs1 \<and>
        disk s' = fs1\<lparr>entries := AList.delete ?tn (entries fs1),
                       history := history fs1 @ [Wrote (temp_path_of P url d) (content resp),
                                                 Removed (temp_path_of P url d)]\<rparr>)
    \<or> (\<not> b \<and> \<not> dir_writable fs1 \<and>
        disk s' = fs1\<lparr>entries := AList.update ?tn (File (content resp)) (entries fs1),
                       history := history fs1 @ [Wrote (temp_path_of P url d) (content resp)]\<rparr>)
    \<or> (b \<and> dir_writable fs1 \<and>
        disk s' = fs1\<lparr>entries := AList.update ?fn (File (content resp))
                                    (AList.delete ?tn (entries fs1)),
                       history := history fs1 @ [Wrote (temp_path_of P url d) (content resp),
                                                 Renamed (temp_path_of P url d) (final_path_of P url d)]\<rparr> \<and>
        (\<forall>n nd. (n, nd) \<in> set (entries fs1) \<and> n \<noteq> ?tn \<longrightarrow>
           (\<exists>data. nd = File data \<and>
              sha256_hexdigest P data \<noteq> sha256_hexdigest P (content resp))))"
    by blast
  from os_makedirs_wf [OF mk wf] have wf1: "wf_fs fs1" and pres1: "dir_present fs1" by simp_all
  have es1: "entries fs1 = ?es" by (rule os_makedirs_entries [OF mk wf])
  have w1: "dir_writable fs1" by (rule os_makedirs_writable [OF mk w])
  have hu1: "distinct (file_hashes P ?es)" using hu by (simp add: hash_unique_def)
  have dist: "distinct (map fst ?es)" using wf by (simp add: wf_fs_def)
  have notemp: "\<not> is_file (lookup (disk s') (temp_path_of P url d))"
    by (rule fetch_returns_no_temp [OF fb w])
  from cases w1 have shape:
    "(\<not> b \<and> (entries (disk s') = ?es \<or> entries (disk s') = AList.delete ?tn ?es))
   \<or> (b \<and> entries (disk s') = AList.update ?fn (File (content resp)) (AList.delete ?tn ?es) \<and>
        (\<forall>n nd. (n, nd) \<in> set ?es \<and> n \<noteq> ?tn \<longrightarrow>
           (\<exists>data. nd = File data \<and>
              sha256_hexdigest P data \<noteq> sha256_hexdigest P (content resp))))"
    and flags: "dir_present (disk s')" "dir_writable (disk s')"
    using es1 pres1 by auto
  have wf': "wf_fs (disk s')"
    using wf_fs_after [OF wf1 pres1 filename_of_no_slash [of P url], of "disk s'" ?tn "File (content resp)"]
      shape flags(1) es1 by auto
  have hu': "hash_unique P (disk s')"
    using shape
  proof (elim disjE conjE)
    assume "entries (disk s') = ?es"
    with hu1 show ?thesis by (simp add: hash_unique_def)
  next
    assume "entries (disk s') = AList.delete ?tn ?es"
    with file_hashes_delete_distinct [OF hu1, of ?tn] show ?thesis by (simp add: hash_unique_def)
  next
    assume e: "entries (disk s') = AList.update ?fn (File (content resp)) (AList.delete ?tn ?es)"
      and nm: "\<forall>n nd. (n, nd) \<in> set ?es \<and> n \<noteq> ?tn \<longrightarrow>
           (\<exists>data. nd = File data \<and>
              sha256_hexdigest P data \<noteq> sha256_hexdigest P (content resp))"
    have "\<forall>n data. (n, File data) \<in> set (AList.delete ?tn ?es) \<and> n \<noteq> ?fn \<longrightarrow>
            sha256_hexdigest P data \<noteq> sha256_hexdigest P (content resp)"
      using nm by (auto simp: mem_delete)
    from file_hashes_update_distinct [OF AList.distinct_delete [OF dist]
        file_hashes_delete_distinct [OF hu1] this]
    show ?thesis using e by (simp add: hash_unique_def)
  qed
  have match: "r \<noteq> Inr True \<and>
              (\<forall>m. m \<noteq> ?tn \<longrightarrow> map_of (entries (disk s')) m = map_of ?es m) \<and>
              (\<forall>b. r = Inr b \<longrightarrow> \<not> is_file (lookup (disk s') (temp_path_of P url d)))"
    if rq: "requests_get P url = Inr resp'" and mp: "map_of ?es n = Some (File data)"
      and ne: "n \<noteq> ?tn"
      and eq: "sha256_hexdigest P data = sha256_hexdigest P (content resp')" for resp' n data
  proof -
    have r': "resp' = resp" by (rule passes_fetcher_unique [OF pf rq])
    from mp have mem: "(n, File data) \<in> set ?es" by (rule map_of_SomeD)
    from shape mem ne eq r' have nb: "\<not> b" and
      ent: "entries (disk s') = ?es \<or> entries (disk s') = AList.delete ?tn ?es"
      by auto
    from ent have "\<forall>m. m \<noteq> ?tn \<longrightarrow> map_of (entries (disk s')) m = map_of ?es m"
      by auto
    with nb Inr notemp show ?thesis by simp
  qed
  from hu' wf' flags(2) match show ?thesis by blast
qed

text \<open>
  Claim C2 as stated fails in a directory without write permission that holds a stale
  \<open>a.png.tmp\<close>: the fetched bytes, equal to those of \<open>b.png\<close>, are written over the stale
  file, the duplicate is found, the removal of the temporary file fails twice, and the
  directory ends with two files of equal hash.
\<close>

theorem duplicate_left_in_read_only_directory:
  "wf_fs (disk (ex_state False [(''b.png'', File ''x''), (''a.png.tmp'', File ''old'')])) \<and>
   hash_unique (ex_platform (Inr (ex_response ''image/png'' ''x'')) ''/a.png'' ex_now)
     (disk (ex_state False [(''b.png'', File ''x''), (''a.png.tmp'', File ''old'')])) \<and>
   fst (fetch_and_save_image (ex_platform (Inr (ex_response ''image/png'' ''x'')) ''/a.png'' ex_now)
          ''https://site/a.png'' ''Fetched_Images''
          (ex_state False [(''b.png'', File ''x''), (''a.png.tmp'', File ''old'')])) = Inr False \<and>
   entries (disk (snd (fetch_and_save_image
          (ex_platform (Inr (ex_response ''image/png'' ''x'')) ''/a.png'' ex_now)
          ''https://site/a.png'' ''Fetched_Images''
          (ex_state False [(''b.png'', File ''x''), (''a.png.tmp'', File ''old'')])))) =
     [(''b.png'', File ''x''), (''a.png.tmp'', File ''x'')] \<and>
   \<not> hash_unique (ex_platform (Inr (ex_response ''image/png'' ''x'')) ''/a.png'' ex_now)
       (disk (snd (fetch_and_save_image
          (ex_platform (Inr (ex_response ''image/png'' ''x'')) ''/a.png'' ex_now)
          ''https://site/a.png'' ''Fetched_Images''
          (ex_state False [(''b.png'', File ''x''), (''a.png.tmp'', File ''old'')]))))"
  by (simp add: eval_defs wf_fs_def hash_unique_def)

text \<open>
  A writable directory with two files of different content, and a fetch of bytes equal to
  those of \<open>b.png\<close>.
\<close>

theorem dedup_keeps_hashes_unique_witness:
  "wf_fs (disk (ex_state True [(''b.png'', File ''x''), (''c.png'', File ''y'')])) \<and>
   hash_unique (ex_platform (Inr (ex_response ''image/png'' ''x'')) ''/a.png'' ex_now)
     (disk (ex_state True [(''b.png'', File ''x''), (''c.png'', File ''y'')])) \<and>
   hash_unique (ex_platform (Inr (ex_response ''image/png'' ''x'')) ''/a.png'' ex_now)
     (disk (snd (fetch_and_save_image
          (ex_platform (Inr (ex_response ''image/png'' ''x'')) ''/a.png'' ex_now)
          ''https://site/a.png'' ''Fetched_Images''
          (ex_state True [(''b.png'', File ''x''), (''c.png'', File ''y'')])))) \<and>
   fst (fetch_and_save_image (ex_platform (Inr (ex_response ''image/png'' ''x'')) ''/a.png'' ex_now)
          ''https://site/a.png'' ''Fetched_Images''
          (ex_state True [(''b.png'', File ''x''), (''c.png'', File ''y'')])) \<noteq> Inr True \<and>
   map_of (entries (disk (snd (fetch_and_save_image
          (ex_platform (Inr (ex_response ''image/png'' ''x'')) ''/a.png'' ex_now)
          ''https://site/a.png'' ''Fetched_Images''
          (ex_state True [(''b.png'', File ''x''), (''c.png'', File ''y'')]))))) ''b.png'' =
     Some (File ''x'')"
proof -
  let ?P = "ex_platform (Inr (ex_response ''image/png'' ''x'')) ''/a.png'' ex_now"
  let ?s = "ex_state True [(''b.png'', File ''x''), (''c.png'', File ''y'')]"
  let ?X = "fetch_and_save_image ?P ''https://site/a.png'' ''Fetched_Images'' ?s"
  have wf: "wf_fs (disk ?s)" by (simp add: wf_fs_def ex_state_def ex_dir_def)
  have hu: "hash_unique ?P (disk ?s)"
    by (simp add: hash_unique_def ex_state_def ex_dir_def ex_platform_def ex_digest_def)
  have w: "dir_present (disk ?s) \<longrightarrow> dir_writable (disk ?s)" by (simp add: ex_state_def ex_dir_def)
  have x: "?X = (fst ?X, snd ?X)" by simp
  note t = dedup_keeps_hashes_unique [OF wf hu w x]
  have rq: "requests_get ?P ''https://site/a.png'' = Inr (ex_response ''image/png'' ''x'')"
    by (simp add: ex_platform_def)
  have mp: "map_of (entries (disk ?s)) ''b.png'' = Some (File ''x'')"
    by (simp add: ex_state_def ex_dir_def)
  have ne: "''b.png'' \<noteq> temp_name_of ?P ''https://site/a.png''"
    by (simp add: name_defs eval_defs)
  have eq: "sha256_hexdigest ?P ''x'' = sha256_hexdigest ?P (content (ex_response ''image/png'' ''x''))"
    by (simp add: ex_response_def)
  from t have h': "hash_unique ?P (disk (snd ?X))" by (elim conjE)
  from t rq mp ne eq have n: "fst ?X \<noteq> Inr True" by blast
  from t rq mp ne eq have "map_of (entries (disk (snd ?X))) ''b.png'' = map_of (entries (disk ?s)) ''b.png''"
    by blast
  with mp have k: "map_of (entries (disk (snd ?X))) ''b.png'' = Some (File ''x'')" by simp
  from wf hu h' n k show ?thesis by (intro conjI)
qed

section \<open>The order of the writes\<close>

lemma os_makedirs_history:
  assumes "os_makedirs d fs = Inr fs1"
  shows "\<exists>mk. (mk = [] \<or> mk = [Made_dir d]) \<and> history fs1 = history fs @ mk"
  using os_makedirs_Inr [OF assms] by auto

lemma new_events_append:
  "history (disk s') = history (disk s) @ evs \<Longrightarrow> new_events s s' = evs"
  by (simp add: new_events_def)

lemma lookup_final_path:
  "lookup fs (final_path_of P url d) =
     (if dir_present fs then map_of (entries fs) (filename_of P url) else None)"
  by (simp add: lookup_def basename_final_path)

lemma fetch_events:
  assumes wf: "wf_fs (disk s)" and f: "fetch_and_save_image P url d s = (r, s')"
  shows "(new_events s s' = [] \<and> history (disk s') = history (disk s) \<and>
          lookup (disk s') (final_path_of P url d) = lookup (disk s) (final_path_of P url d))
       \<or> (\<exists>resp mk. requests_get P url = Inr resp \<and> (mk = [] \<or> mk = [Made_dir d]) \<and>
            history (disk s') = history (disk s) @ new_events s s' \<and>
            ((r = Inr False \<and>
              (new_events s s' = mk \<or>
               new_events s s' = mk @ [Wrote (temp_path_of P url d) (content resp)] \<or>
               new_events s s' = mk @ [Wrote (temp_path_of P url d) (content resp),
                                        Removed (temp_path_of P url d)]) \<and>
              lookup (disk s') (final_path_of P url d) = lookup (disk s) (final_path_of P url d))
           \<or> (r = Inr True \<and>
              new_events s s' = mk @ [Wrote (temp_path_of P url d) (content resp),
                                       Renamed (temp_path_of P url d) (final_path_of P url d)] \<and>
              (\<forall>n data. map_of (entries (disk s)) n = Some (File data) \<and>
                          n \<noteq> temp_name_of P url \<longrightarrow>
                 sha256_hexdigest P data \<noteq> sha256_hexdigest P (content resp)))))"
proof (cases r)
  case (Inl e)
  with f fetch_raises [of P url d s e s'] have "disk s' = disk s" by simp
  then show ?thesis by (simp add: new_events_def)
next
  case (Inr b)
  let ?tn = "temp_name_of P url" and ?fn = "filename_of P url"
  let ?T = "temp_path_of P url d" and ?F = "final_path_of P url d"
  from f Inr have fb: "fetch_and_save_image P url d s = (Inr b, s')" by simp
  from fetch_returns_disk [OF fb wf] obtain resp fs1 where
    pf: "passes_fetcher P url resp" and mk: "os_makedirs d (disk s) = Inr fs1"
    and cases: "(\<not> b \<and> disk s' = fs1)
    \<or> (\<not> b \<and> dir_writable fs1 \<and>
        disk s' = fs1\<lparr>entries := AList.delete ?tn (entries fs1),
                       history := history fs1 @ [Wrote ?T (content resp), Removed ?T]\<rparr>)
    \<or> (\<not> b \<and> \<not> dir_writable fs1 \<and>
        disk s' = fs1\<lparr>entries := AList.update ?tn (File (content resp)) (entries fs1),
                       history := history fs1 @ [Wrote ?T (content resp)]\<rparr>)
    \<or> (b \<and> dir_writable fs1 \<and>
        disk s' = fs1\<lparr>entries := AList.update ?fn (File (content resp))
                                    (AList.delete ?tn (entries fs1)),
                       history := history fs1 @ [Wrote ?T (content resp), Renamed ?T ?F]\<rparr> \<and>
        (\<forall>n nd. (n, nd) \<in> set (entries fs1) \<and> n \<noteq> ?tn \<longrightarrow>
           (\<exists>data. nd = File data \<and>
              sha256_hexdigest P data \<noteq> sha256_hexdigest P (content resp))))"
    by blast
  from pf have rq: "requests_get P url = Inr resp" by (simp add: passes_fetcher_def)
  from os_makedirs_history [OF mk] obtain mkd where
    mkd: "mkd = [] \<or> mkd = [Made_dir d]" and h1: "history fs1 = history (disk s) @ mkd"
    by blast
  from os_makedirs_wf [OF mk wf] have pres1: "dir_present fs1" by simp
  have es1: "entries fs1 = entries (disk s)" by (rule os_makedirs_entries [OF mk wf])
  have l1: "lookup fs1 ?F = lookup (disk s) ?F"
    using es1 pres1 wf by (auto simp: lookup_final_path wf_fs_def)
  have ne: "?fn \<noteq> ?tn" using temp_name_neq [of P url] by simp
  from cases show ?thesis
  proof (elim disjE conjE)
    assume nb: "\<not> b" and d: "disk s' = fs1"
    from d h1 have "history (disk s') = history (disk s) @ mkd" by simp
    from new_events_append [OF this] this d l1 nb Inr rq mkd show ?thesis by auto
  next
    assume nb: "\<not> b"
      and d: "disk s' = fs1\<lparr>entries := AList.delete ?tn (entries fs1),
                       history := history fs1 @ [Wrote ?T (content resp), Removed ?T]\<rparr>"
    from d h1 have h: "history (disk s') = history (disk s) @ (mkd @ [Wrote ?T (content resp), Removed ?T])"
      by simp
    have "lookup (disk s') ?F = lookup fs1 ?F"
      using d pres1 ne by (simp add: lookup_final_path)
    with new_events_append [OF h] h l1 nb Inr rq mkd show ?thesis by auto
  next
    assume nb: "\<not> b"
      and d: "disk s' = fs1\<lparr>entries := AList.update ?tn (File (content resp)) (entries fs1),
                       history := history fs1 @ [Wrote ?T (content resp)]\<rparr>"
    from d h1 have h: "history (disk s') = history (disk s) @ (mkd @ [Wrote ?T (content resp)])"
      by simp
    have "lookup (disk s') ?F = lookup fs1 ?F"
      using d pres1 ne by (simp add: lookup_final_path AList.update_conv')
    with new_events_append [OF h] h l1 nb Inr rq mkd show ?thesis by auto
  next
    assume b: "b"
      and d: "disk s' = fs1\<lparr>entries := AList.update ?fn (File (content resp))
                                    (AList.delete ?tn (entries fs1)),
                       history := history fs1 @ [Wrote ?T (content resp), Renamed ?T ?F]\<rparr>"
      and nm: "\<forall>n nd. (n, nd) \<in> set (entries fs1) \<and> n \<noteq> ?tn \<longrightarrow>
           (\<exists>data. nd = File data \<and>
              sha256_hexdigest P data \<noteq> sha256_hexdigest P (content resp))"
    from d h1 have h: "history (disk s') = history (disk s) @ (mkd @ [Wrote ?T (content resp), Renamed ?T ?F])"
      by simp
    have "\<forall>n data. map_of (entries (disk s)) n = Some (File data) \<and> n \<noteq> ?tn \<longrightarrow>
                 sha256_hexdigest P data \<noteq> sha256_hexdigest P (content resp)"
      using nm es1 by (auto dest: map_of_SomeD)
    with new_events_append [OF h] h b Inr rq mkd show ?thesis by auto
  qed
qed

text \<open>
  Claim C6. In every execution of \<open>fetch_and_save_image\<close> the fetched bytes are written
  only to the temporary path, which is the final path with the suffix \<open>.tmp\<close> and so
  never the final path. The entry at the final path changes only through the rename of
  the temporary file; the rename comes directly after the write of the full content, only
  in a call that returns \<open>True\<close>, and only when no other file of the directory has the
  hash of the fetched bytes.
\<close>

theorem temp_then_rename:
  assumes wf: "wf_fs (disk s)" and f: "fetch_and_save_image P url d s = (r, s')"
  shows "temp_path_of P url d = final_path_of P url d @ ''.tmp'' \<and>
         history (disk s') = history (disk s) @ new_events s s' \<and>
         (\<forall>p data. Wrote p data \<in> set (new_events s s') \<longrightarrow>
            p = temp_path_of P url d \<and> p \<noteq> final_path_of P url d \<and>
            requests_get P url = Inr (the_response P url) \<and> data = content (the_response P url)) \<and>
         (\<forall>a c. Renamed a c \<in> set (new_events s s') \<longrightarrow>
            a = temp_path_of P url d \<and> c = final_path_of P url d \<and> r = Inr True \<and>
            (\<exists>pre. new_events s s' =
                     pre @ [Wrote a (content (the_response P url)), Renamed a c]) \<and>
            (\<forall>n data. map_of (entries (disk s)) n = Some (File data) \<and>
                        n \<noteq> temp_name_of P url \<longrightarrow>
               sha256_hexdigest P data \<noteq> sha256_hexdigest P (content (the_response P url)))) \<and>
         (lookup (disk s') (final_path_of P url d) \<noteq> lookup (disk s) (final_path_of P url d) \<longrightarrow>
            Renamed (temp_path_of P url d) (final_path_of P url d) \<in> set (new_events s s'))"
proof -
  let ?T = "temp_path_of P url d" and ?F = "final_path_of P url d"
  let ?N = "new_events s s'"
  have tf: "?T = ?F @ ''.tmp''" by (simp add: temp_path_of_def)
  then have ne: "?T \<noteq> ?F" by simp
  from fetch_events [OF wf f] consider
      (quiet) "?N = []" "history (disk s') = history (disk s)"
        "lookup (disk s') ?F = lookup (disk s) ?F"
    | (failed) resp mk where "requests_get P url = Inr resp" "mk = [] \<or> mk = [Made_dir d]"
        "history (disk s') = history (disk s) @ ?N" "r = Inr False"
        "?N = mk \<or> ?N = mk @ [Wrote ?T (content resp)]
              \<or> ?N = mk @ [Wrote ?T (content resp), Removed ?T]"
        "lookup (disk s') ?F = lookup (disk s) ?F"
    | (stored) resp mk where "requests_get P url = Inr resp" "mk = [] \<or> mk = [Made_dir d]"
        "history (disk s') = history (disk s) @ ?N" "r = Inr True"
        "?N = mk @ [Wrote ?T (content resp), Renamed ?T ?F]"
        "\<forall>n data. map_of (entries (disk s)) n = Some (File data) \<and>
                          n \<noteq> temp_name_of P url \<longrightarrow>
                 sha256_hexdigest P data \<noteq> sha256_hexdigest P (content resp)"
    by blast
  then show ?thesis
  proof cases
    case quiet
    with tf show ?thesis by simp
  next
    case (failed resp mk)
    note rq = failed(1) and mk = failed(2) and h = failed(3) and r = failed(4)
      and n = failed(5) and l = failed(6)
    have tr: "the_response P url = resp" using rq by (simp add: the_response_def)
    from n mk have w: "\<forall>p data. Wrote p data \<in> set ?N \<longrightarrow> p = ?T \<and> data = content resp"
      by auto
    from n mk have nr: "\<forall>a c. Renamed a c \<notin> set ?N" by auto
    have W: "\<forall>p data. Wrote p data \<in> set ?N \<longrightarrow>
            p = ?T \<and> p \<noteq> ?F \<and>
            requests_get P url = Inr (the_response P url) \<and> data = content (the_response P url)"
    proof (intro allI impI)
      fix p data assume "Wrote p data \<in> set ?N"
      with w have pd: "p = ?T" "data = content resp" by auto
      with ne rq tr show "p = ?T \<and> p \<noteq> ?F \<and>
            requests_get P url = Inr (the_response P url) \<and> data = content (the_response P url)"
        by simp
    qed
    have R: "\<forall>a c. Renamed a c \<in> set ?N \<longrightarrow>
            a = ?T \<and> c = ?F \<and> r = Inr True \<and>
            (\<exists>pre. ?N = pre @ [Wrote a (content (the_response P url)), Renamed a c]) \<and>
            (\<forall>n data. map_of (entries (disk s)) n = Some (File data) \<and>
                        n \<noteq> temp_name_of P url \<longrightarrow>
               sha256_hexdigest P data \<noteq> sha256_hexdigest P (content (the_response P url)))"
      using nr by simp
    have L: "lookup (disk s') ?F \<noteq> lookup (disk s) ?F \<longrightarrow> Renamed ?T ?F \<in> set ?N"
      using l by simp
    from tf h W R L show ?thesis by (intro conjI)
  next
    case (stored resp mk)
    note rq = stored(1) and mk = stored(2) and h = stored(3) and r = stored(4)
      and n = stored(5) and nm = stored(6)
    have tr: "the_response P url = resp" using rq by (simp add: the_response_def)
    from n mk have w: "\<forall>p data. Wrote p data \<in> set ?N \<longrightarrow> p = ?T \<and> data = content resp"
      by auto
    from n mk have rn: "\<forall>a c. Renamed a c \<in> set ?N \<longrightarrow> a = ?T \<and> c = ?F" by auto
    from n have pre: "\<exists>pre. ?N = pre @ [Wrote ?T (content resp), Renamed ?T ?F]" by blast
    from n have mem: "Renamed ?T ?F \<in> set ?N" by simp
    show ?thesis
    proof (intro conjI allI impI)
      show "?T = ?F @ ''.tmp''" by (rule tf)
      show "history (disk s') = history (disk s) @ ?N" by (rule h)
      show "Renamed ?T ?F \<in> set ?N" by (rule mem)
    next
      fix p data assume "Wrote p data \<in> set ?N"
      with w have pd: "p = ?T" "data = content resp" by auto
      show "p = ?T" by (rule pd(1))
      show "p \<noteq> ?F" using pd(1) ne by simp
      show "requests_get P url = Inr (the_response P url)" using rq tr by simp
      show "data = content (the_response P url)" using pd(2) tr by simp
    next
      fix a c assume m: "Renamed a c \<in> set ?N"
      with rn have ac: "a = ?T" "c = ?F" by auto
      show "a = ?T" by (rule ac(1))
      show "c = ?F" by (rule ac(2))
      show "r = Inr True" by (rule r)
      show "\<exists>pre. ?N = pre @ [Wrote a (content (the_response P url)), Renamed a c]"
        using pre ac tr by simp
    next
      fix a c n data
      assume "Renamed a c \<in> set ?N"
        "map_of (entries (disk s)) n = Some (File data) \<and> n \<noteq> temp_name_of P url"
      with nm tr show "sha256_hexdigest P data \<noteq> sha256_hexdigest P (content (the_response P url))"
        by simp
    qed
  qed
qed

text \<open>
  A fetch into a directory that holds one file of other content: the write to
  \<open>a.png.tmp\<close>, then the rename to \<open>a.png\<close>.
\<close>

theorem temp_then_rename_witness:
  "wf_fs (disk (ex_state True [(''b.png'', File ''y'')])) \<and>
   new_events (ex_state True [(''b.png'', File ''y'')])
     (snd (fetch_and_save_image (ex_platform (Inr (ex_response ''image/png'' ''x'')) ''/a.png'' ex_now)
             ''https://site/a.png'' ''Fetched_Images'' (ex_state True [(''b.png'', File ''y'')]))) =
     [Wrote ''Fetched_Images/a.png.tmp'' ''x'',
      Renamed ''Fetched_Images/a.png.tmp'' ''Fetched_Images/a.png''] \<and>
   fst (fetch_and_save_image (ex_platform (Inr (ex_response ''image/png'' ''x'')) ''/a.png'' ex_now)
          ''https://site/a.png'' ''Fetched_Images'' (ex_state True [(''b.png'', File ''y'')])) =
     Inr True \<and>
   sha256_hexdigest (ex_platform (Inr (ex_response ''image/png'' ''x'')) ''/a.png'' ex_now) ''y'' \<noteq>
   sha256_hexdigest (ex_platform (Inr (ex_response ''image/png'' ''x'')) ''/a.png'' ex_now) ''x''"
proof -
  let ?P = "ex_platform (Inr (ex_response ''image/png'' ''x'')) ''/a.png'' ex_now"
  let ?s = "ex_state True [(''b.png'', File ''y'')]"
  let ?X = "fetch_and_save_image ?P ''https://site/a.png'' ''Fetched_Images'' ?s"
  let ?R = "Renamed ''Fetched_Images/a.png.tmp'' ''Fetched_Images/a.png''"
  have wf: "wf_fs (disk ?s)" by (simp add: wf_fs_def ex_state_def ex_dir_def)
  have x: "?X = (fst ?X, snd ?X)" by simp
  have ev: "new_events ?s (snd ?X) = [Wrote ''Fetched_Images/a.png.tmp'' ''x'', ?R]"
    by (simp add: new_events_def eval_defs)
  then have mem: "?R \<in> set (new_events ?s (snd ?X))" by simp
  have c: "content (the_response ?P ''https://site/a.png'') = ''x''"
    by (simp add: the_response_def ex_platform_def ex_response_def)
  have mp: "map_of (entries (disk ?s)) ''b.png'' = Some (File ''y'') \<and>
            ''b.png'' \<noteq> temp_name_of ?P ''https://site/a.png''"
    by (simp add: ex_state_def ex_dir_def name_defs eval_defs)
  note t = temp_then_rename [OF wf x]
  from t mem have r: "fst ?X = Inr True" by blast
  from t mem mp have "sha256_hexdigest ?P ''y'' \<noteq>
      sha256_hexdigest ?P (content (the_response ?P ''https://site/a.png''))"
    by blast
  with c have h: "sha256_hexdigest ?P ''y'' \<noteq> sha256_hexdigest ?P ''x''" by simp
  from wf ev r h show ?thesis by (intro conjI)
qed

end
